theory Spec2Isabelle
  imports Main
begin

section \<open>Python values\<close>

text \<open>
  A Python \<open>str\<close> is modelled as a \<open>string\<close> whose characters are the code points
  below 256. A value read from a JSON dictionary is either missing (the key is absent),
  \<open>null\<close> (Python's \<open>None\<close>) or a value; a Python expression that is either \<open>None\<close> or a
  value is an \<open>option\<close>.
\<close>

datatype 'a field = Absent | Null | Val 'a

text \<open>\<open>d.get(key, default)\<close>: the default is used only when the key is absent.\<close>

fun get :: "'a field \<Rightarrow> 'a option \<Rightarrow> 'a option" where
  "get Absent dflt = dflt"
| "get Null dflt = None"
| "get (Val v) dflt = Some v"

datatype error = IndexError | ValueError

text \<open>\<open>xs[i]\<close> for a non-negative literal index \<open>i\<close>.\<close>

fun index :: "'a list \<Rightarrow> nat \<Rightarrow> error + 'a" where
  "index [] i = Inl IndexError"
| "index (x # xs) 0 = Inr x"
| "index (x # xs) (Suc i) = index xs i"

text \<open>\<open>str(n)\<close> for an integer, as an f-string renders it.\<close>

definition digit_char :: "nat \<Rightarrow> char" where
  "digit_char d = char_of (48 + d)"

fun str_nat :: "nat \<Rightarrow> string" where
  "str_nat n = (if n < 10 then [digit_char n] else str_nat (n div 10) @ [digit_char (n mod 10)])"

definition str_int :: "int \<Rightarrow> string" where
  "str_int i = (if i < 0 then CHR ''-'' # str_nat (nat (- i)) else str_nat (nat i))"

section \<open>Format Normalizer\<close>

text \<open>
  A format dictionary as the extraction oracle emits it, restricted to the keys the
  servers read. Heights and file sizes are JSON integers or \<open>null\<close>.
\<close>

record format =
  raw_vcodec :: "string field"
  raw_height :: "int field"
  raw_ext :: "string field"
  raw_filesize :: "int field"
  raw_format_id :: "string field"
  raw_url :: "string field"

text \<open>The dictionary both servers append for a kept format (five keys, always present).\<close>

record extracted_format =
  fmt_format_id :: "string option"
  fmt_quality :: string
  fmt_height :: int
  fmt_ext :: "string option"
  fmt_filesize :: "int option"

text \<open>The dictionary literal of \<open>extract_formats\<close> in backend.py.\<close>

definition backend_entry :: "format \<Rightarrow> int \<Rightarrow> extracted_format" where
  "backend_entry fmt h =
     \<lparr> fmt_format_id = get (raw_format_id fmt) (Some ''''),
       fmt_quality = str_int h @ ''p'',
       fmt_height = h,
       fmt_ext = get (raw_ext fmt) (Some ''mp4''),
       fmt_filesize = get (raw_filesize fmt) (Some 0) \<rparr>"

text \<open>The dictionary literal of \<open>get_video_info\<close> in app.py.\<close>

definition app_entry :: "format \<Rightarrow> int \<Rightarrow> extracted_format" where
  "app_entry fmt h =
     \<lparr> fmt_format_id = get (raw_format_id fmt) None,
       fmt_quality = str_int h @ ''p'',
       fmt_height = h,
       fmt_ext = get (raw_ext fmt) (Some ''mp4''),
       fmt_filesize = get (raw_filesize fmt) None \<rparr>"

text \<open>
  The loop shared by both servers, over the remaining formats, the list built so far and
  the set \<open>seen_qualities\<close>; \<open>entry\<close> is the dictionary literal. A format is skipped when
  its \<open>vcodec\<close> is \<open>'none'\<close>, when its height is falsy (absent, \<open>null\<close> or 0) and when its
  height was seen before.
\<close>

fun formats_loop ::
  "(format \<Rightarrow> int \<Rightarrow> extracted_format) \<Rightarrow> format list \<Rightarrow> extracted_format list \<Rightarrow> int set
     \<Rightarrow> extracted_format list" where
  "formats_loop entry [] extracted seen_qualities = extracted"
| "formats_loop entry (fmt # formats) extracted seen_qualities =
     (if get (raw_vcodec fmt) None \<noteq> Some ''none'' then
        (case get (raw_height fmt) (Some 0) of
           None \<Rightarrow> formats_loop entry formats extracted seen_qualities
         | Some h \<Rightarrow>
             if h \<noteq> 0 \<and> h \<notin> seen_qualities
             then formats_loop entry formats (extracted @ [entry fmt h]) (insert h seen_qualities)
             else formats_loop entry formats extracted seen_qualities)
      else formats_loop entry formats extracted seen_qualities)"

text \<open>
  \<open>xs.sort(key=lambda x: x['height'], reverse=True)\<close>: a stable sort, descending by
  height.
\<close>

definition sort_by_height :: "extracted_format list \<Rightarrow> extracted_format list" where
  "sort_by_height xs = sort_key (\<lambda>x. - fmt_height x) xs"

text \<open>\<open>extract_formats\<close> of backend.py: the top five.\<close>

definition extract_formats :: "format list \<Rightarrow> extracted_format list" where
  "extract_formats formats = take 5 (sort_by_height (formats_loop backend_entry formats [] {}))"

text \<open>
  The \<open>formats\<close> list of \<open>get_video_info\<close> in app.py, for the list under the key
  \<open>'formats'\<close>: the top ten.
\<close>

definition app_formats :: "format list \<Rightarrow> extracted_format list" where
  "app_formats formats = take 10 (sort_by_height (formats_loop app_entry formats [] {}))"

text \<open>An emitted dictionary read back as an input format: it has no \<open>vcodec\<close> and no \<open>url\<close>.\<close>

fun as_field :: "'a option \<Rightarrow> 'a field" where
  "as_field None = Null"
| "as_field (Some v) = Val v"

definition as_format :: "extracted_format \<Rightarrow> format" where
  "as_format x =
     \<lparr> raw_vcodec = Absent,
       raw_height = Val (fmt_height x),
       raw_ext = as_field (fmt_ext x),
       raw_filesize = as_field (fmt_filesize x),
       raw_format_id = as_field (fmt_format_id x),
       raw_url = Absent \<rparr>"

section \<open>Strings\<close>

text \<open>A literal piece of a pattern: the rest of the subject after it, when it is there.\<close>

fun literal :: "string \<Rightarrow> string \<Rightarrow> string option" where
  "literal [] s = Some s"
| "literal (p # ps) [] = None"
| "literal (p # ps) (c # cs) = (if p = c then literal ps cs else None)"

text \<open>\<open>sub in s\<close>.\<close>

fun contains :: "string \<Rightarrow> string \<Rightarrow> bool" where
  "contains [] sub = (sub = [])"
| "contains (c # cs) sub = (literal sub (c # cs) \<noteq> None \<or> contains cs sub)"

text \<open>
  \<open>s.split(sep)\<close> for the non-empty separator \<open>p # ps\<close>, scanning from the left; \<open>cur\<close> is
  the piece being read.
\<close>

function split_aux :: "char \<Rightarrow> string \<Rightarrow> string \<Rightarrow> string \<Rightarrow> string list" where
  "split_aux p ps cur [] = [cur]"
| "split_aux p ps cur (c # cs) =
     (case literal (p # ps) (c # cs) of
        Some rest \<Rightarrow> cur # split_aux p ps [] rest
      | None \<Rightarrow> split_aux p ps (cur @ [c]) cs)"
  by pat_completeness auto
termination
proof -
  have shorter: "literal q s = Some r \<Longrightarrow> length s = length q + length r" for q s r
    by (induction q s rule: literal.induct) (auto split: if_splits)
  show ?thesis
    by (relation "measure (\<lambda>(p, ps, cur, s). length s)") (auto split: if_splits dest: shorter)
qed

text \<open>\<open>s.split(sep)\<close>; an empty separator raises \<open>ValueError\<close>.\<close>

definition split :: "string \<Rightarrow> string \<Rightarrow> error + string list" where
  "split s sep = (case sep of [] \<Rightarrow> Inl ValueError | p # ps \<Rightarrow> Inr (split_aux p ps [] s))"

text \<open>\<open>s.replace(old, new)\<close>: every occurrence, from the left, without overlap.\<close>

function replace_aux :: "char \<Rightarrow> string \<Rightarrow> string \<Rightarrow> string \<Rightarrow> string" where
  "replace_aux p ps new [] = []"
| "replace_aux p ps new (c # cs) =
     (case literal (p # ps) (c # cs) of
        Some rest \<Rightarrow> new @ replace_aux p ps new rest
      | None \<Rightarrow> c # replace_aux p ps new cs)"
  by pat_completeness auto
termination
proof -
  have shorter: "literal q s = Some r \<Longrightarrow> length s = length q + length r" for q s r
    by (induction q s rule: literal.induct) (auto split: if_splits)
  show ?thesis
    by (relation "measure (\<lambda>(p, ps, new, s). length s)") (auto split: if_splits dest: shorter)
qed

definition replace :: "string \<Rightarrow> string \<Rightarrow> string \<Rightarrow> string" where
  "replace s old new =
     (case old of
        [] \<Rightarrow> new @ concat (map (\<lambda>c. c # new) s)
      | p # ps \<Rightarrow> replace_aux p ps new s)"

text \<open>\<open>str.isdigit\<close> and \<open>str.isspace\<close> on the code points below 256.\<close>

definition isdigit :: "char \<Rightarrow> bool" where
  "isdigit c =
     (let n = (of_char c :: nat) in (48 \<le> n \<and> n \<le> 57) \<or> n = 178 \<or> n = 179 \<or> n = 185)"

definition isspace :: "char \<Rightarrow> bool" where
  "isspace c =
     (let n = (of_char c :: nat)
      in (9 \<le> n \<and> n \<le> 13) \<or> (28 \<le> n \<and> n \<le> 32) \<or> n = 133 \<or> n = 160)"

definition strip :: "string \<Rightarrow> string" where
  "strip s = rev (dropWhile isspace (rev (dropWhile isspace s)))"

text \<open>
  \<open>urllib.parse.quote(s)\<close> with its default \<open>safe='/'\<close>: the UTF-8 bytes of \<open>s\<close>, each
  kept when it is an ASCII letter, a digit or one of \<open>_.-~/\<close>, and written \<open>%XX\<close>
  otherwise.
\<close>

definition quote_safe :: "nat \<Rightarrow> bool" where
  "quote_safe n =
     ((65 \<le> n \<and> n \<le> 90) \<or> (97 \<le> n \<and> n \<le> 122) \<or> (48 \<le> n \<and> n \<le> 57)
      \<or> n = 95 \<or> n = 46 \<or> n = 45 \<or> n = 126 \<or> n = 47)"

definition hex_char :: "nat \<Rightarrow> char" where
  "hex_char d = (if d < 10 then char_of (48 + d) else char_of (55 + d))"

definition utf8 :: "char \<Rightarrow> nat list" where
  "utf8 c =
     (let n = (of_char c :: nat) in if n < 128 then [n] else [192 + n div 64, 128 + n mod 64])"

definition quote_byte :: "nat \<Rightarrow> string" where
  "quote_byte b =
     (if quote_safe b then [char_of b]
      else [CHR ''%'', hex_char (b div 16), hex_char (b mod 16)])"

definition quote :: "string \<Rightarrow> string" where
  "quote s = concat (map (\<lambda>c. concat (map quote_byte (utf8 c))) s)"

text \<open>Sequencing of calls that may raise.\<close>

fun and_then :: "error + 'a \<Rightarrow> ('a \<Rightarrow> error + 'b) \<Rightarrow> error + 'b" where
  "and_then (Inl e) f = Inl e"
| "and_then (Inr x) f = f x"

section \<open>Quality Selector\<close>

text \<open>
  The branch on \<open>quality\<close> in \<open>download_video\<close> of app.py: the format selector and the
  target extension.
\<close>

definition download_video_selector :: "string \<Rightarrow> string \<times> string" where
  "download_video_selector quality =
     (if quality \<in> set [''audio'', ''mp3''] then (''bestaudio/best'', ''mp3'')
      else if quality \<in> set [''best'', ''worst''] then (quality, ''mp4'')
      else
        (let h = filter isdigit quality in
           if h \<noteq> [] then (''best[height<='' @ h @ '']'', ''mp4'') else (''best'', ''mp4'')))"

text \<open>The same branch in \<open>stream_video_url\<close> of app.py, which has no extension.\<close>

definition stream_video_url_selector :: "string \<Rightarrow> string" where
  "stream_video_url_selector quality =
     (if quality \<in> set [''audio'', ''mp3''] then ''bestaudio/best''
      else if quality \<in> set [''best'', ''worst''] then quality
      else
        (let h = filter isdigit quality in
           if h \<noteq> [] then ''best[height<='' @ h @ '']'' else ''best''))"

text \<open>The selector of \<open>get_download_url\<close> in backend.py.\<close>

definition get_download_url_selector :: "string \<Rightarrow> string" where
  "get_download_url_selector quality =
     (if quality \<in> set [''best'', ''worst''] then quality
      else ''best[height<='' @ quality @ '']'')"

text \<open>
  The specification's wording, for comparison: the leading digit run of a token is its
  first maximal run of digit characters.
\<close>

definition leading_digit_run :: "string \<Rightarrow> string" where
  "leading_digit_run quality = takeWhile isdigit (dropWhile (\<lambda>c. \<not> isdigit c) quality)"

section \<open>Video Identifier Extraction\<close>

text \<open>The class \<open>[^&\n?#]\<close> and the group \<open>([^&\n?#]+)\<close> that ends both patterns.\<close>

definition idchar :: "char \<Rightarrow> bool" where
  "idchar c = (c \<notin> set [CHR ''&'', CHR 0x0A, CHR ''?'', CHR ''#''])"

definition id_group :: "string \<Rightarrow> string option" where
  "id_group s = (let g = takeWhile idchar s in if g = [] then None else Some g)"

text \<open>A literal followed by the group.\<close>

definition literal_then_group :: "string \<Rightarrow> string \<Rightarrow> string option" where
  "literal_then_group p s = (case literal p s of None \<Rightarrow> None | Some rest \<Rightarrow> id_group rest)"

text \<open>The first alternative that succeeds, in the order written.\<close>

fun orelse :: "'a option \<Rightarrow> 'a option \<Rightarrow> 'a option" where
  "orelse (Some x) y = Some x"
| "orelse None y = y"

text \<open>
  \<open>(?:youtube\.com/watch\?v=|youtu\.be/|youtube\.com/embed/)([^&\n?#]+)\<close> matched at the
  start of \<open>s\<close>.
\<close>

definition pattern1 :: "string \<Rightarrow> string option" where
  "pattern1 s =
     orelse (literal_then_group ''youtube.com/watch?v='' s)
       (orelse (literal_then_group ''youtu.be/'' s)
          (literal_then_group ''youtube.com/embed/'' s))"

text \<open>
  A greedy \<open>.*\<close> followed by the continuation \<open>k\<close>: the longest run of characters other
  than the newline first, then shorter ones.
\<close>

fun dot_star :: "(string \<Rightarrow> string option) \<Rightarrow> string \<Rightarrow> string option" where
  "dot_star k [] = k []"
| "dot_star k (c # cs) =
     (if c \<noteq> CHR 0x0A then orelse (dot_star k cs) (k (c # cs)) else k (c # cs))"

text \<open>\<open>youtube\.com/watch\?.*v=([^&\n?#]+)\<close> matched at the start of \<open>s\<close>.\<close>

definition pattern2 :: "string \<Rightarrow> string option" where
  "pattern2 s =
     (case literal ''youtube.com/watch?'' s of
        None \<Rightarrow> None
      | Some rest \<Rightarrow> dot_star (literal_then_group ''v='') rest)"

text \<open>\<open>re.search\<close>: the match at the leftmost position where the pattern matches.\<close>

fun search :: "(string \<Rightarrow> string option) \<Rightarrow> string \<Rightarrow> string option" where
  "search m [] = m []"
| "search m (c # cs) = orelse (m (c # cs)) (search m cs)"

text \<open>\<open>extract_youtube_id\<close> of simple_backend.py; \<open>None\<close> is Python's \<open>None\<close>.\<close>

definition extract_youtube_id :: "string \<Rightarrow> string option" where
  "extract_youtube_id url = orelse (search pattern1 url) (search pattern2 url)"

text \<open>\<open>extract_video_id\<close> of backend.py.\<close>

definition extract_video_id :: "string \<Rightarrow> error + string" where
  "extract_video_id url =
     (if contains url ''youtube.com'' then
        (if contains url ''v='' then
           and_then (split url ''v='') (\<lambda>parts. and_then (index parts 1)
             (\<lambda>rest. and_then (split rest ''&'') (\<lambda>parts. index parts 0)))
         else if contains url ''/embed/'' then
           and_then (split url ''/embed/'') (\<lambda>parts. and_then (index parts 1)
             (\<lambda>rest. and_then (split rest ''?'') (\<lambda>parts. index parts 0)))
         else Inr [])
      else if contains url ''youtu.be'' then
        and_then (split url ''youtu.be/'') (\<lambda>parts. and_then (index parts 1)
          (\<lambda>rest. and_then (split rest ''?'') (\<lambda>parts. index parts 0)))
      else Inr [])"

section \<open>Fallback URL Generator\<close>

text \<open>\<open>generate_fallback_urls\<close> of backend.py: a dictionary, in the order written.\<close>

definition generate_fallback_urls :: "string \<Rightarrow> error + (string \<times> string) list" where
  "generate_fallback_urls url =
     (let encoded_url = replace (replace url ''&'' ''%26'') ''='' ''%3D'' in
      and_then (extract_video_id url) (\<lambda>video_id. Inr
        [(''savefrom'', ''https://savefrom.net/#url='' @ encoded_url),
         (''y2mate'', ''https://www.y2mate.com/youtube/'' @ video_id),
         (''keepvid'', ''https://keepvid.com/?url='' @ encoded_url),
         (''clipconverter'', ''https://www.clipconverter.cc/2/#url='' @ encoded_url),
         (''onlinevideoconverter'',
            ''https://www.onlinevideoconverter.com/success?url='' @ encoded_url)]))"

section \<open>Responses\<close>

text \<open>A JSON value; an object keeps the order in which the dictionary was written.\<close>

datatype json =
  JNull | JBool bool | JInt int | JStr string | JList "json list" | JObj "(string \<times> json) list"

fun json_str :: "string option \<Rightarrow> json" where
  "json_str None = JNull"
| "json_str (Some s) = JStr s"

fun json_int :: "int option \<Rightarrow> json" where
  "json_int None = JNull"
| "json_int (Some i) = JInt i"

text \<open>A response: the HTTP status and the JSON body.\<close>

type_synonym response = "nat \<times> json"

text \<open>The metadata dictionary of the extraction oracle, restricted to the keys read.\<close>

record info =
  info_title :: "string field"
  info_description :: "string field"
  info_duration :: "int field"
  info_thumbnail :: "string field"
  info_uploader :: "string field"
  info_view_count :: "int field"
  info_formats :: "format list field"
  info_url :: "string field"


section \<open>The full server (app.py)\<close>

text \<open>\<open>raise HTTPException(status_code, detail)\<close> as the client receives it.\<close>

definition http_exception :: "nat \<Rightarrow> string \<Rightarrow> response" where
  "http_exception status_code detail = (status_code, JObj [(''detail'', JStr detail)])"



text \<open>
  The choice of the direct URL in \<open>stream_video_url\<close>: \<open>Inl\<close> is the message of the
  exception raised when there is none.
\<close>

definition stream_url :: "info \<Rightarrow> string + string option" where
  "stream_url info =
     (if info_url info \<noteq> Absent then Inr (get (info_url info) None)
      else
        (case get (info_formats info) None of
           None \<Rightarrow> Inl ''No stream URL found''
         | Some fs \<Rightarrow>
             if fs \<noteq> [] then Inr (get (raw_url (last fs)) (Some ''''))
             else Inl ''No stream URL found''))"

text \<open>
  \<open>stream_video_url\<close> of app.py; the oracle is given the format selector and the URL.
\<close>

definition stream_video_url ::
  "(string \<Rightarrow> string \<Rightarrow> string + info) \<Rightarrow> string \<Rightarrow> string \<Rightarrow> response" where
  "stream_video_url extract_info url quality =
     (let format_selector = stream_video_url_selector quality in
      case extract_info format_selector url of
        Inl e \<Rightarrow> http_exception 400 (''Stream URL extraction failed: '' @ e)
      | Inr info \<Rightarrow>
          (case stream_url info of
             Inl e \<Rightarrow> http_exception 400 (''Stream URL extraction failed: '' @ e)
           | Inr u \<Rightarrow>
               (200, JObj
                 [(''success'', JBool True),
                  (''stream_url'', json_str u),
                  (''title'', json_str (get (info_title info) (Some ''Video''))),
                  (''duration'', json_int (get (info_duration info) (Some 0))),
                  (''quality'', JStr quality),
                  (''direct_download'', JBool True)])))"

section \<open>The subprocess server (backend.py)\<close>











section \<open>The scrape-only server (simple_backend.py)\<close>

text \<open>\<open><title>([^<]+)</title>\<close> matched at the start of \<open>s\<close>.\<close>

definition title_pattern :: "string \<Rightarrow> string option" where
  "title_pattern s =
     (case literal ''<title>'' s of
        None \<Rightarrow> None
      | Some rest \<Rightarrow>
          (let g = takeWhile (\<lambda>c. c \<noteq> CHR ''<'') rest in
           if g = [] then None
           else
             (case literal ''</title>'' (dropWhile (\<lambda>c. c \<noteq> CHR ''<'') rest) of
                None \<Rightarrow> None
              | Some _ \<Rightarrow> Some g)))"

text \<open>
  \<open>get_youtube_info\<close>: the title of the dictionary it returns. \<open>fetch url\<close> is the decoded
  page, or \<open>None\<close> when opening, reading or decoding it raises.
\<close>

definition get_youtube_info :: "(string \<Rightarrow> string option) \<Rightarrow> string \<Rightarrow> string" where
  "get_youtube_info fetch video_id =
     (case fetch (''https://www.youtube.com/watch?v='' @ video_id) of
        None \<Rightarrow> ''Video '' @ video_id
      | Some html \<Rightarrow>
          (let title = (case search title_pattern html of
                          Some t \<Rightarrow> t
                        | None \<Rightarrow> ''Video '' @ video_id)
           in strip (replace title '' - YouTube'' [])))"

definition send_error_response :: "string \<Rightarrow> json" where
  "send_error_response message = JObj [(''success'', JBool False), (''error'', JStr message)]"

definition handle_video_info :: "(string \<Rightarrow> string option) \<Rightarrow> (string \<rightharpoonup> string) \<Rightarrow> json" where
  "handle_video_info fetch query_params =
     (case query_params ''url'' of
        None \<Rightarrow> send_error_response ''URL parameter required''
      | Some video_url \<Rightarrow>
          (case extract_youtube_id video_url of
             None \<Rightarrow> send_error_response ''Invalid YouTube URL''
           | Some video_id \<Rightarrow>
               if video_id = [] then send_error_response ''Invalid YouTube URL''
               else JObj
                 [(''success'', JBool True),
                  (''video_id'', JStr video_id),
                  (''title'', JStr (get_youtube_info fetch video_id)),
                  (''thumbnail'', JStr (''https://i.ytimg.com/vi/'' @ video_id @ ''/hqdefault.jpg'')),
                  (''formats'', JList
                    [JObj [(''quality'', JStr ''mp3''), (''ext'', JStr ''mp3''), (''height'', JInt 0)],
                     JObj [(''quality'', JStr ''360p''), (''ext'', JStr ''mp4''), (''height'', JInt 360)],
                     JObj [(''quality'', JStr ''720p''), (''ext'', JStr ''mp4''), (''height'', JInt 720)],
                     JObj [(''quality'', JStr ''1080p''), (''ext'', JStr ''mp4''),
                           (''height'', JInt 1080)]])]))"

definition generate_download_urls :: "string \<Rightarrow> string \<Rightarrow> string list" where
  "generate_download_urls video_url quality =
     (let encoded_url = quote video_url;
          video_id = extract_youtube_id video_url
      in
        [''https://vkrdownloader.xyz/server/dl.php?vkr='' @ encoded_url @ ''&q='' @ quality]
        @ (case video_id of
             None \<Rightarrow> []
           | Some v \<Rightarrow>
               if v = [] then []
               else [''https://www.y2mate.com/youtube/'' @ v,
                     ''https://savefrom.net/#url='' @ encoded_url])
        @ [''https://vkrdownloader.xyz/server/force.php?vkr='' @ encoded_url @ ''&q='' @ quality])"

definition handle_download :: "(string \<rightharpoonup> string) \<Rightarrow> json" where
  "handle_download query_params =
     (case query_params ''url'' of
        None \<Rightarrow> send_error_response ''URL parameter required''
      | Some video_url \<Rightarrow>
          (let quality = (case query_params ''quality'' of None \<Rightarrow> ''720'' | Some q \<Rightarrow> q) in
           case extract_youtube_id video_url of
             None \<Rightarrow> send_error_response ''Invalid YouTube URL''
           | Some video_id \<Rightarrow>
               if video_id = [] then send_error_response ''Invalid YouTube URL''
               else
                 (let download_urls = generate_download_urls video_url quality in
                  JObj
                    [(''success'', JBool True),
                     (''download_url'',
                        (case download_urls of [] \<Rightarrow> JNull | u # _ \<Rightarrow> JStr u)),
                     (''alternative_urls'', JList (map JStr download_urls)),
                     (''quality'', JStr quality)])))"


text \<open>
  The specification's wording, for comparison: a title with the suffix \<open>suffix\<close> stripped.
\<close>

definition strip_suffix :: "string \<Rightarrow> string \<Rightarrow> string" where
  "strip_suffix suffix title =
     (if length suffix \<le> length title \<and> drop (length title - length suffix) title = suffix
      then take (length title - length suffix) title else title)"

section \<open>Vocabulary of the properties and sample inputs\<close>

definition terminator :: "char \<Rightarrow> bool" where
  "terminator c = (c \<in> set [CHR ''&'', CHR 0x0A, CHR ''?'', CHR ''#''])"

definition identifier_at :: "string \<Rightarrow> string \<Rightarrow> bool" where
  "identifier_at g post =
     (g \<noteq> [] \<and> list_all (\<lambda>c. \<not> terminator c) g \<and> (case post of [] \<Rightarrow> True | c # _ \<Rightarrow> terminator c))"

definition openers :: "string list" where
  "openers = [''youtube.com/watch?v='', ''youtu.be/'', ''youtube.com/embed/'']"

text \<open>
  The text before the first occurrence of a separator (the whole text when there is none)
  and the text after it.
\<close>

fun text_before :: "string \<Rightarrow> string \<Rightarrow> string" where
  "text_before sep [] = []"
| "text_before sep (c # cs) = (if literal sep (c # cs) \<noteq> None then [] else c # text_before sep cs)"

fun text_after :: "string \<Rightarrow> string \<Rightarrow> string" where
  "text_after sep [] = []"
| "text_after sep (c # cs) =
     (case literal sep (c # cs) of Some rest \<Rightarrow> rest | None \<Rightarrow> text_after sep cs)"

text \<open>The value under a key of a JSON object.\<close>

definition json_lookup :: "json \<Rightarrow> string \<Rightarrow> json option" where
  "json_lookup j key = (case j of JObj kvs \<Rightarrow> map_of kvs key | _ \<Rightarrow> None)"


definition sample_formats :: "format list" where
  "sample_formats =
     [\<lparr>raw_vcodec = Val ''none'', raw_height = Null, raw_ext = Val ''m4a'',
        raw_filesize = Val 3000000, raw_format_id = Val ''140'', raw_url = Absent\<rparr>,
      \<lparr>raw_vcodec = Val ''avc1'', raw_height = Val 720, raw_ext = Val ''mp4'',
        raw_filesize = Null, raw_format_id = Val ''22'', raw_url = Absent\<rparr>,
      \<lparr>raw_vcodec = Val ''vp9'', raw_height = Val 1080, raw_ext = Absent,
        raw_filesize = Absent, raw_format_id = Absent, raw_url = Absent\<rparr>,
      \<lparr>raw_vcodec = Absent, raw_height = Val 720, raw_ext = Val ''webm'',
        raw_filesize = Val 5, raw_format_id = Val ''136'', raw_url = Absent\<rparr>]"

definition audio_formats :: "format list" where
  "audio_formats =
     [\<lparr>raw_vcodec = Val ''none'', raw_height = Null, raw_ext = Val ''m4a'',
        raw_filesize = Val 3000000, raw_format_id = Val ''140'', raw_url = Absent\<rparr>,
      \<lparr>raw_vcodec = Val ''none'', raw_height = Val 480, raw_ext = Val ''webm'',
        raw_filesize = Absent, raw_format_id = Val ''251'', raw_url = Absent\<rparr>]"

definition sample_output :: "extracted_format list" where
  "sample_output =
     [\<lparr>fmt_format_id = Some ''137'', fmt_quality = ''1080p'', fmt_height = 1080,
        fmt_ext = Some ''mp4'', fmt_filesize = None\<rparr>,
      \<lparr>fmt_format_id = None, fmt_quality = ''720p'', fmt_height = 720,
        fmt_ext = None, fmt_filesize = Some 0\<rparr>]"

definition sample_query :: "string \<rightharpoonup> string" where
  "sample_query = [''url'' \<mapsto> ''https://youtu.be/XYZ789?x=1'']"






definition titled_page :: string where
  "titled_page = ''<html><head><title>Foo Bar - YouTube</title></head></html>''"

definition untitled_page :: string where
  "untitled_page = ''<html><body>Sign in</body></html>''"

definition twice_page :: string where
  "twice_page = ''<html><title>My - YouTube Story - YouTube</title></html>''"

definition info_with_url :: info where
  "info_with_url =
     \<lparr> info_title = Val ''Clip'', info_description = Absent, info_duration = Val 212,
       info_thumbnail = Absent, info_uploader = Absent, info_view_count = Absent,
       info_formats = Val sample_formats, info_url = Val ''https://cdn.example/v.mp4'' \<rparr>"

definition sample_stream_formats :: "format list" where
  "sample_stream_formats =
     [\<lparr>raw_vcodec = Val ''avc1'', raw_height = Val 360, raw_ext = Val ''mp4'',
        raw_filesize = Null, raw_format_id = Val ''18'',
        raw_url = Val ''https://cdn.example/18.mp4''\<rparr>,
      \<lparr>raw_vcodec = Val ''avc1'', raw_height = Val 720, raw_ext = Val ''mp4'',
        raw_filesize = Null, raw_format_id = Val ''22'',
        raw_url = Val ''https://cdn.example/22.mp4''\<rparr>]"

definition info_with_formats :: info where
  "info_with_formats =
     \<lparr> info_title = Val ''Clip'', info_description = Absent, info_duration = Val 212,
       info_thumbnail = Absent, info_uploader = Absent, info_view_count = Absent,
       info_formats = Val sample_stream_formats, info_url = Absent \<rparr>"

definition info_without_url :: info where
  "info_without_url =
     \<lparr> info_title = Val ''Clip'', info_description = Absent, info_duration = Val 212,
       info_thumbnail = Absent, info_uploader = Absent, info_view_count = Absent,
       info_formats = Val [], info_url = Absent \<rparr>"

definition info_null_url :: info where
  "info_null_url =
     \<lparr> info_title = Val ''Clip'', info_description = Absent, info_duration = Val 212,
       info_thumbnail = Absent, info_uploader = Absent, info_view_count = Absent,
       info_formats = Val sample_stream_formats, info_url = Null \<rparr>"

definition info_last_without_url :: info where
  "info_last_without_url =
     \<lparr> info_title = Val ''Clip'', info_description = Absent, info_duration = Val 212,
       info_thumbnail = Absent, info_uploader = Absent, info_view_count = Absent,
       info_formats = Val sample_formats, info_url = Absent \<rparr>"

section \<open>Properties of the Format Normalizer\<close>

lemmas str_eval = str_int_def digit_char_def char_of_def bit_0

lemma sorted_neg_distinct:
  "sorted (map uminus zs) \<Longrightarrow> distinct zs \<Longrightarrow> sorted_wrt (>) (zs::int list)"
  by (induction zs) (auto simp: less_le)

lemma loop_heights:
  assumes "\<And>fmt h. fmt_height (entry fmt h) = h"
  shows "distinct (map fmt_height acc) \<Longrightarrow> fmt_height ` set acc \<subseteq> seen
     \<Longrightarrow> distinct (map fmt_height (formats_loop entry xs acc seen))"
proof (induction xs arbitrary: acc seen)
  case Nil
  then show ?case by simp
next
  case (Cons x xs)
  have step: "distinct (map fmt_height (formats_loop entry xs (acc @ [entry x h]) (insert h seen)))"
    if "h \<notin> seen" for h
  proof (rule Cons.IH)
    from that Cons.prems show "distinct (map fmt_height (acc @ [entry x h]))"
      by (auto simp: assms)
    from Cons.prems show "fmt_height ` set (acc @ [entry x h]) \<subseteq> insert h seen"
      by (auto simp: assms)
  qed
  from Cons.prems have same: "distinct (map fmt_height (formats_loop entry xs acc seen))"
    by (rule Cons.IH)
  show ?case
    by (simp add: step same split: option.splits)
qed

lemma get_height_Val: "get f (Some 0) = Some h \<Longrightarrow> h \<noteq> (0::int) \<Longrightarrow> f = Val h"
  by (cases f) auto

lemma get_vcodec: "(get f None \<noteq> Some v) = (f \<noteq> Val v)"
  by (cases f) auto

lemma loop_origin:
  assumes "\<And>fmt h. fmt_height (entry fmt h) = h"
  shows "y \<in> set (formats_loop entry xs acc seen) \<Longrightarrow>
     y \<in> set acc \<or> (\<exists>x\<in>set xs. raw_vcodec x \<noteq> Val ''none'' \<and> raw_height x = Val (fmt_height y)
        \<and> fmt_height y \<noteq> 0 \<and> y = entry x (fmt_height y))"
proof (induction xs arbitrary: acc seen)
  case Nil
  then show ?case by simp
next
  case (Cons x xs)
  show ?case
  proof (cases "get (raw_vcodec x) None \<noteq> Some ''none''")
    case False
    with Cons show ?thesis by fastforce
  next
    case codec: True
    show ?thesis
    proof (cases "get (raw_height x) (Some 0)")
      case None
      with Cons codec show ?thesis by fastforce
    next
      case (Some h)
      show ?thesis
      proof (cases "h \<noteq> 0 \<and> h \<notin> seen")
        case False
        with Cons codec Some show ?thesis by fastforce
      next
        case True
        with Cons.prems codec Some
        have "y \<in> set (formats_loop entry xs (acc @ [entry x h]) (insert h seen))" by simp
        from Cons.IH[OF this] show ?thesis
        proof
          assume "y \<in> set (acc @ [entry x h])"
          then consider "y \<in> set acc" | "y = entry x h" by auto
          then show ?thesis
          proof cases
            case 1 then show ?thesis by simp
          next
            case 2
            with True Some codec show ?thesis
              using assms get_height_Val[of "raw_height x" h] by (auto simp: get_vcodec)
          qed
        next
          assume "\<exists>x\<in>set xs. raw_vcodec x \<noteq> Val ''none'' \<and> raw_height x = Val (fmt_height y)
            \<and> fmt_height y \<noteq> 0 \<and> y = entry x (fmt_height y)"
          then show ?thesis by auto
        qed
      qed
    qed
  qed
qed

lemma loop_all_audio:
  "\<forall>x\<in>set xs. raw_vcodec x = Val ''none'' \<Longrightarrow> formats_loop entry xs acc seen = acc"
  by (induction xs arbitrary: acc seen) auto

lemma sort_by_height_sorted:
  "distinct (map fmt_height xs) \<Longrightarrow> sorted_wrt (>) (map fmt_height (sort_by_height xs))"
proof -
  assume d: "distinct (map fmt_height xs)"
  have "sorted (map (\<lambda>x. - fmt_height x) (sort_by_height xs))"
    by (simp add: sort_by_height_def)
  then have s: "sorted (map uminus (map fmt_height (sort_by_height xs)))"
    by (simp add: comp_def)
  from d have "distinct (map fmt_height (sort_by_height xs))"
    by (simp add: sort_by_height_def distinct_map)
  with s show ?thesis by (rule sorted_neg_distinct)
qed


lemma entry_height: "fmt_height (backend_entry fmt h) = h" "fmt_height (app_entry fmt h) = h"
  by (simp_all add: backend_entry_def app_entry_def)

lemma normalizer_props:
  fixes xs n
  assumes e: "\<And>fmt h. fmt_height (entry fmt h) = h"
  defines "ys \<equiv> take n (sort_by_height (formats_loop entry xs [] {}))"
  shows "sorted_wrt (>) (map fmt_height ys)"
    and "distinct (map fmt_height ys)"
    and "length ys \<le> n"
    and "\<forall>y\<in>set ys. \<exists>x\<in>set xs. raw_vcodec x \<noteq> Val ''none'' \<and> raw_height x = Val (fmt_height y)
           \<and> fmt_height y \<noteq> 0 \<and> y = entry x (fmt_height y)"
proof -
  let ?zs = "formats_loop entry xs [] {}"
  have d: "distinct (map fmt_height ?zs)"
    using e by (rule loop_heights) simp_all
  then have s: "sorted_wrt (>) (map fmt_height (sort_by_height ?zs))"
    by (rule sort_by_height_sorted)
  have "map fmt_height ys = take n (map fmt_height (sort_by_height ?zs))"
    by (simp add: ys_def take_map)
  with s show "sorted_wrt (>) (map fmt_height ys)"
    by (simp add: sorted_wrt_take)
  then show "distinct (map fmt_height ys)"
    by (simp add: sorted_wrt_iff_nth_less distinct_conv_nth) (metis less_irrefl linorder_neqE_nat)
  show "length ys \<le> n" by (simp add: ys_def)
  have "set ys \<subseteq> set ?zs"
    using set_take_subset[of n "sort_by_height ?zs"] by (simp add: ys_def sort_by_height_def)
  then show "\<forall>y\<in>set ys. \<exists>x\<in>set xs. raw_vcodec x \<noteq> Val ''none'' \<and> raw_height x = Val (fmt_height y)
           \<and> fmt_height y \<noteq> 0 \<and> y = entry x (fmt_height y)"
    using loop_origin[where entry=entry and xs=xs and acc="[]" and seen="{}", OF e] by auto
qed



text \<open>
  Claim C1. For every list of formats, the output of the normalizer (\<open>extract_formats\<close> in
  backend.py, the \<open>formats\<close> list of \<open>get_video_info\<close> in app.py) is strictly descending
  by height, so no two of its entries have the same height; every entry was built from
  an input format whose \<open>vcodec\<close> is not \<open>'none'\<close> and whose height is the entry's, so no
  audio-only format is in it; and it has at most 5 entries in backend.py and at most 10
  in app.py. The empty list gives the empty list, and so does a list of audio-only
  formats; the result is a list in every case, never an exception.
\<close>

theorem format_normalizer_output:
  "sorted_wrt (>) (map fmt_height (extract_formats formats))
   \<and> distinct (map fmt_height (extract_formats formats))
   \<and> (\<forall>y\<in>set (extract_formats formats). \<exists>fmt\<in>set formats.
         raw_vcodec fmt \<noteq> Val ''none'' \<and> raw_height fmt = Val (fmt_height y)
         \<and> fmt_height y \<noteq> 0 \<and> y = backend_entry fmt (fmt_height y))
   \<and> length (extract_formats formats) \<le> 5
   \<and> sorted_wrt (>) (map fmt_height (app_formats formats))
   \<and> distinct (map fmt_height (app_formats formats))
   \<and> (\<forall>y\<in>set (app_formats formats). \<exists>fmt\<in>set formats.
         raw_vcodec fmt \<noteq> Val ''none'' \<and> raw_height fmt = Val (fmt_height y)
         \<and> fmt_height y \<noteq> 0 \<and> y = app_entry fmt (fmt_height y))
   \<and> length (app_formats formats) \<le> 10
   \<and> extract_formats [] = [] \<and> app_formats [] = []
   \<and> ((\<forall>fmt\<in>set formats. raw_vcodec fmt = Val ''none'')
        \<longrightarrow> extract_formats formats = [] \<and> app_formats formats = [])"
proof -
  note b = normalizer_props[where entry = backend_entry and n = 5 and xs = formats,
      OF entry_height(1), folded extract_formats_def]
  note a = normalizer_props[where entry = app_entry and n = 10 and xs = formats,
      OF entry_height(2), folded app_formats_def]
  have empty: "extract_formats [] = [] \<and> app_formats [] = []"
    by (simp add: extract_formats_def app_formats_def sort_by_height_def)
  have audio: "(\<forall>fmt\<in>set formats. raw_vcodec fmt = Val ''none'')
        \<longrightarrow> extract_formats formats = [] \<and> app_formats formats = []"
    by (simp add: extract_formats_def app_formats_def sort_by_height_def loop_all_audio)
  from b a empty audio show ?thesis by blast
qed

theorem format_normalizer_output_witness:
  "list_all (\<lambda>fmt. raw_vcodec fmt = Val ''none'') audio_formats
   \<and> extract_formats audio_formats = [] \<and> app_formats audio_formats = []
   \<and> extract_formats sample_formats =
       [\<lparr>fmt_format_id = Some [], fmt_quality = ''1080p'', fmt_height = 1080,
          fmt_ext = Some ''mp4'', fmt_filesize = Some 0\<rparr>,
        \<lparr>fmt_format_id = Some ''22'', fmt_quality = ''720p'', fmt_height = 720,
          fmt_ext = Some ''mp4'', fmt_filesize = None\<rparr>]
   \<and> sorted_wrt (>) (map fmt_height (extract_formats sample_formats))
   \<and> length (extract_formats sample_formats) \<le> 5"
proof -
  have audio: "\<forall>fmt\<in>set audio_formats. raw_vcodec fmt = Val ''none''"
    by (simp add: audio_formats_def)
  then have "list_all (\<lambda>fmt. raw_vcodec fmt = Val ''none'') audio_formats"
    by (simp add: list_all_iff)
  moreover from audio format_normalizer_output[of audio_formats]
  have "extract_formats audio_formats = [] \<and> app_formats audio_formats = []"
    by blast
  moreover have "extract_formats sample_formats =
       [\<lparr>fmt_format_id = Some [], fmt_quality = ''1080p'', fmt_height = 1080,
          fmt_ext = Some ''mp4'', fmt_filesize = Some 0\<rparr>,
        \<lparr>fmt_format_id = Some ''22'', fmt_quality = ''720p'', fmt_height = 720,
          fmt_ext = Some ''mp4'', fmt_filesize = None\<rparr>]"
    by (simp add: extract_formats_def sample_formats_def sort_by_height_def backend_entry_def
        str_eval)
  moreover from format_normalizer_output[of sample_formats]
  have "sorted_wrt (>) (map fmt_height (extract_formats sample_formats))
     \<and> length (extract_formats sample_formats) \<le> 5"
    by blast
  ultimately show ?thesis by blast
qed

lemma sorted_desc_neg: "sorted_wrt (>) (zs::int list) \<Longrightarrow> sorted (map uminus zs)"
  by (induction zs) auto

lemma loop_valid:
  assumes "\<And>y. y \<in> set ys \<Longrightarrow> entry (as_format y) (fmt_height y) = y"
  shows "distinct (map fmt_height ys) \<Longrightarrow> \<forall>y\<in>set ys. fmt_height y \<noteq> 0 \<and> fmt_height y \<notin> seen
     \<Longrightarrow> formats_loop entry (map as_format ys) acc seen = acc @ ys"
  using assms
proof (induction ys arbitrary: acc seen)
  case Nil
  then show ?case by simp
next
  case (Cons y ys)
  have "formats_loop entry (map as_format ys) (acc @ [y]) (insert (fmt_height y) seen)
        = (acc @ [y]) @ ys"
  proof (rule Cons.IH)
    show "distinct (map fmt_height ys)" using Cons.prems by simp
    show "\<forall>z\<in>set ys. fmt_height z \<noteq> 0 \<and> fmt_height z \<notin> insert (fmt_height y) seen"
      using Cons.prems(1,2) by (auto simp: image_iff)
    show "\<And>z. z \<in> set ys \<Longrightarrow> entry (as_format z) (fmt_height z) = z"
      using Cons.prems(3) by simp
  qed
  moreover have "entry (as_format y) (fmt_height y) = y"
    using Cons.prems by simp
  moreover have "raw_vcodec (as_format y) = Absent" "raw_height (as_format y) = Val (fmt_height y)"
    by (simp_all add: as_format_def)
  ultimately show ?case
    using Cons.prems(2) by simp
qed

lemma as_format_entry:
  "fmt_quality y = str_int (fmt_height y) @ ''p'' \<Longrightarrow> backend_entry (as_format y) (fmt_height y) = y"
  "fmt_quality y = str_int (fmt_height y) @ ''p'' \<Longrightarrow> app_entry (as_format y) (fmt_height y) = y"
  by (cases "fmt_format_id y"; cases "fmt_ext y"; cases "fmt_filesize y";
      simp add: backend_entry_def app_entry_def as_format_def)+

lemma normalizer_fixpoint:
  assumes "\<And>y. y \<in> set ys \<Longrightarrow> entry (as_format y) (fmt_height y) = y"
    and "sorted_wrt (>) (map fmt_height ys)" and "distinct (map fmt_height ys)"
    and "\<forall>y\<in>set ys. fmt_height y \<noteq> 0" and "length ys \<le> n"
  shows "take n (sort_by_height (formats_loop entry (map as_format ys) [] {})) = ys"
proof -
  have "formats_loop entry (map as_format ys) [] {} = [] @ ys"
    using assms(1,3,4) by (intro loop_valid) auto
  moreover have "sorted (map (\<lambda>x. - fmt_height x) ys)"
    using sorted_desc_neg[OF assms(2)] by (simp add: comp_def)
  ultimately show ?thesis
    using assms(5) by (simp add: sort_by_height_def sort_key_id_if_sorted)
qed

text \<open>
  Claim C4. The normalizer is idempotent. A list of emitted dictionaries that is strictly
  descending by positive height, without two equal heights, no longer than the cap, and
  whose \<open>quality\<close> labels are the ones the normalizer writes (the height followed by
  \<open>p\<close>), comes back unchanged, entry for entry and key for key, when it is given to the
  normalizer again. In particular every output of the normalizer comes back unchanged.
\<close>

theorem format_normalizer_idempotent:
  assumes "sorted_wrt (>) (map fmt_height ys)" and "distinct (map fmt_height ys)"
    and "\<forall>y\<in>set ys. 0 < fmt_height y"
    and "\<forall>y\<in>set ys. fmt_quality y = str_int (fmt_height y) @ ''p''"
  shows "(length ys \<le> 5 \<longrightarrow> extract_formats (map as_format ys) = ys)
     \<and> (length ys \<le> 10 \<longrightarrow> app_formats (map as_format ys) = ys)
     \<and> extract_formats (map as_format (extract_formats formats)) = extract_formats formats
     \<and> app_formats (map as_format (app_formats formats)) = app_formats formats"
proof -
  have nz: "\<forall>y\<in>set ys. fmt_height y \<noteq> 0" using assms(3) by auto
  have 1: "length ys \<le> 5 \<longrightarrow> extract_formats (map as_format ys) = ys"
    unfolding extract_formats_def
    using assms nz by (auto intro!: normalizer_fixpoint as_format_entry)
  have 2: "length ys \<le> 10 \<longrightarrow> app_formats (map as_format ys) = ys"
    unfolding app_formats_def
    using assms nz by (auto intro!: normalizer_fixpoint as_format_entry)
  note b = normalizer_props[where entry = backend_entry and n = 5 and xs = formats,
      OF entry_height(1), folded extract_formats_def]
  have 3: "extract_formats (map as_format (extract_formats formats)) = extract_formats formats"
    unfolding extract_formats_def[of "map as_format (extract_formats formats)"]
  proof (rule normalizer_fixpoint)
    fix y assume "y \<in> set (extract_formats formats)"
    with b(4) obtain fmt where "y = backend_entry fmt (fmt_height y)" by blast
    then have "fmt_quality y = str_int (fmt_height y) @ ''p''"
      by (metis backend_entry_def extracted_format.select_convs(2))
    then show "backend_entry (as_format y) (fmt_height y) = y" by (rule as_format_entry)
  qed (use b in auto)
  note a = normalizer_props[where entry = app_entry and n = 10 and xs = formats,
      OF entry_height(2), folded app_formats_def]
  have 4: "app_formats (map as_format (app_formats formats)) = app_formats formats"
    unfolding app_formats_def[of "map as_format (app_formats formats)"]
  proof (rule normalizer_fixpoint)
    fix y assume "y \<in> set (app_formats formats)"
    with a(4) obtain fmt where "y = app_entry fmt (fmt_height y)" by blast
    then have "fmt_quality y = str_int (fmt_height y) @ ''p''"
      by (metis app_entry_def extracted_format.select_convs(2))
    then show "app_entry (as_format y) (fmt_height y) = y" by (rule as_format_entry)
  qed (use a in auto)
  from 1 2 3 4 show ?thesis by blast
qed

theorem format_normalizer_idempotent_witness:
  "sorted_wrt (>) (map fmt_height sample_output) \<and> distinct (map fmt_height sample_output)
   \<and> list_all (\<lambda>y. 0 < fmt_height y \<and> fmt_quality y = str_int (fmt_height y) @ ''p'')
        sample_output
   \<and> length sample_output \<le> 5
   \<and> extract_formats (map as_format sample_output) = sample_output
   \<and> app_formats (map as_format sample_output) = sample_output"
proof -
  have 1: "sorted_wrt (>) (map fmt_height sample_output)"
    and 2: "distinct (map fmt_height sample_output)"
    and 3: "\<forall>y\<in>set sample_output. 0 < fmt_height y"
    and 4: "\<forall>y\<in>set sample_output. fmt_quality y = str_int (fmt_height y) @ ''p''"
    and 5: "length sample_output \<le> 5" "length sample_output \<le> 10"
    by (simp_all add: sample_output_def str_eval)
  from format_normalizer_idempotent[OF 1 2 3 4] 5
  have "extract_formats (map as_format sample_output) = sample_output
     \<and> app_formats (map as_format sample_output) = sample_output"
    by blast
  with 1 2 3 4 5 show ?thesis by (simp add: list_all_iff)
qed

section \<open>Properties of the Quality Selector\<close>

lemma filter_digit_runs:
  "filter isdigit quality =
     leading_digit_run quality
     @ filter isdigit (dropWhile isdigit (dropWhile (\<lambda>c. \<not> isdigit c) quality))"
proof -
  let ?r = "dropWhile (\<lambda>c. \<not> isdigit c) quality"
  have "quality = takeWhile (\<lambda>c. \<not> isdigit c) quality @ takeWhile isdigit ?r @ dropWhile isdigit ?r"
    by simp
  then have "filter isdigit quality =
      filter isdigit (takeWhile (\<lambda>c. \<not> isdigit c) quality)
      @ filter isdigit (takeWhile isdigit ?r) @ filter isdigit (dropWhile isdigit ?r)"
    by (metis filter_append)
  moreover have "filter isdigit (takeWhile (\<lambda>c. \<not> isdigit c) quality) = []"
    by (auto simp: filter_empty_conv dest: set_takeWhileD)
  moreover have "filter isdigit (takeWhile isdigit ?r) = takeWhile isdigit ?r"
    by (auto simp: filter_id_conv dest: set_takeWhileD)
  ultimately show ?thesis by (simp add: leading_digit_run_def)
qed

text \<open>
  Claim C2, as amended. In app.py, for every quality token: \<open>audio\<close> and \<open>mp3\<close> give the
  selector \<open>bestaudio/best\<close> with extension \<open>mp3\<close>; \<open>best\<close> and \<open>worst\<close> give themselves
  with extension \<open>mp4\<close>; any other token with a digit character gives
  \<open>best[height<=N]\<close> with extension \<open>mp4\<close>, where \<open>N\<close> is the token's digit characters
  in order, all of them; any other token gives \<open>best\<close> with extension \<open>mp4\<close>. \<open>N\<close> is
  the leading digit run of the token exactly when no digit follows that run.
  \<open>stream_video_url\<close> chooses the same selector. In backend.py, \<open>best\<close> and \<open>worst\<close> give
  themselves and every other token \<open>t\<close> gives \<open>best[height<=t]\<close>, the token as it is.
  No token raises.
\<close>

theorem quality_selector:
  "(quality = ''audio'' \<or> quality = ''mp3''
      \<longrightarrow> download_video_selector quality = (''bestaudio/best'', ''mp3''))
   \<and> (quality = ''best'' \<or> quality = ''worst''
      \<longrightarrow> download_video_selector quality = (quality, ''mp4''))
   \<and> (quality \<notin> {''audio'', ''mp3'', ''best'', ''worst''}
      \<longrightarrow> download_video_selector quality =
            (if \<exists>c\<in>set quality. isdigit c
             then (''best[height<='' @ filter isdigit quality @ '']'', ''mp4'')
             else (''best'', ''mp4'')))
   \<and> stream_video_url_selector quality = fst (download_video_selector quality)
   \<and> (filter isdigit quality = leading_digit_run quality
      \<longleftrightarrow> (\<forall>c\<in>set (dropWhile isdigit (dropWhile (\<lambda>c. \<not> isdigit c) quality)). \<not> isdigit c))
   \<and> get_download_url_selector quality =
       (if quality = ''best'' \<or> quality = ''worst'' then quality
        else ''best[height<='' @ quality @ '']'')"
proof -
  have "filter isdigit quality = leading_digit_run quality
      \<longleftrightarrow> (\<forall>c\<in>set (dropWhile isdigit (dropWhile (\<lambda>c. \<not> isdigit c) quality)). \<not> isdigit c)"
    using filter_digit_runs[of quality] by (auto simp: filter_empty_conv)
  moreover have "stream_video_url_selector quality = fst (download_video_selector quality)"
    by (simp add: stream_video_url_selector_def download_video_selector_def Let_def)
  moreover have "quality \<notin> {''audio'', ''mp3'', ''best'', ''worst''}
      \<longrightarrow> download_video_selector quality =
            (if \<exists>c\<in>set quality. isdigit c
             then (''best[height<='' @ filter isdigit quality @ '']'', ''mp4'')
             else (''best'', ''mp4''))"
    by (auto simp: download_video_selector_def Let_def filter_empty_conv)
  ultimately show ?thesis
    by (simp add: download_video_selector_def get_download_url_selector_def)
qed

theorem quality_selector_witness:
  "download_video_selector ''mp3'' = (''bestaudio/best'', ''mp3'')
   \<and> download_video_selector ''worst'' = (''worst'', ''mp4'')
   \<and> ''720p'' \<notin> {''audio'', ''mp3'', ''best'', ''worst''}
   \<and> download_video_selector ''720p'' = (''best[height<=720]'', ''mp4'')
   \<and> download_video_selector ''hd'' = (''best'', ''mp4'')
   \<and> filter isdigit ''720p'' = leading_digit_run ''720p''
   \<and> list_all (\<lambda>c. \<not> isdigit c) (dropWhile isdigit (dropWhile (\<lambda>c. \<not> isdigit c) ''720p''))"
  using quality_selector[of "''mp3''"] quality_selector[of "''worst''"]
    quality_selector[of "''720p''"] quality_selector[of "''hd''"]
  by (simp add: isdigit_def list_all_iff)

theorem quality_selector_counterexample:
  "fst (download_video_selector ''720p60'') = ''best[height<=72060]''
   \<and> leading_digit_run ''720p60'' = ''720''
   \<and> fst (download_video_selector ''720p60'') \<noteq> ''best[height<='' @ leading_digit_run ''720p60'' @ '']''
   \<and> get_download_url_selector ''audio'' = ''best[height<=audio]''
   \<and> get_download_url_selector ''720p'' = ''best[height<=720p]''"
  by (simp add: download_video_selector_def leading_digit_run_def get_download_url_selector_def
      isdigit_def)

section \<open>Properties of Video Identifier Extraction\<close>

lemma literal_Some: "literal p s = Some r \<Longrightarrow> s = p @ r"
  by (induction p s rule: literal.induct) (auto split: if_splits)

lemma literal_append: "literal p (p @ r) = Some r"
  by (induction p) auto

lemma literal_contains: "literal p b \<noteq> None \<Longrightarrow> contains (a @ b) p"
proof (induction a)
  case Nil
  then show ?case by (cases b; cases p) auto
next
  case (Cons c a)
  then show ?case by simp
qed

lemma id_group_Some:
  assumes "id_group s = Some g"
  shows "\<exists>post. s = g @ post \<and> identifier_at g post"
proof -
  from assms have g: "g = takeWhile idchar s" "g \<noteq> []"
    by (auto simp: id_group_def Let_def split: if_splits)
  let ?post = "dropWhile idchar s"
  have "s = g @ ?post" using g by simp
  moreover have "list_all (\<lambda>c. \<not> terminator c) g"
    using g by (auto simp: list_all_iff idchar_def terminator_def dest: set_takeWhileD)
  moreover have "case ?post of [] \<Rightarrow> True | c # _ \<Rightarrow> terminator c"
  proof (cases ?post)
    case Nil
    show ?thesis unfolding Nil by simp
  next
    case (Cons c cs)
    with hd_dropWhile[of idchar s] have "\<not> idchar c" by simp
    then show ?thesis unfolding Cons by (simp add: idchar_def terminator_def)
  qed
  ultimately show ?thesis using g unfolding identifier_at_def by blast
qed

lemma literal_then_group_Some:
  "literal_then_group p s = Some g \<Longrightarrow> \<exists>post. s = p @ g @ post \<and> identifier_at g post"
  by (auto simp: literal_then_group_def split: option.splits dest!: literal_Some id_group_Some)

lemma orelse_Some: "orelse a b = Some g \<Longrightarrow> a = Some g \<or> b = Some g"
  by (cases a) auto

lemma orelse_None: "orelse a b = None \<longleftrightarrow> a = None \<and> b = None"
  by (cases a) auto

lemma pattern1_Some:
  "pattern1 s = Some g \<Longrightarrow> \<exists>p\<in>set openers. \<exists>post. s = p @ g @ post \<and> identifier_at g post"
  unfolding pattern1_def openers_def
  by (auto dest!: orelse_Some literal_then_group_Some)

lemma dot_star_Some: "dot_star k s = Some g \<Longrightarrow> \<exists>a b. s = a @ b \<and> k b = Some g"
proof (induction s)
  case Nil
  then show ?case by simp
next
  case (Cons c s)
  then consider "dot_star k s = Some g" | "k (c # s) = Some g"
    by (auto split: if_splits dest: orelse_Some)
  then show ?case
  proof cases
    case 1
    with Cons.IH obtain a b where "s = a @ b" "k b = Some g" by blast
    then have "c # s = (c # a) @ b \<and> k b = Some g" by simp
    then show ?thesis by blast
  next
    case 2
    then have "c # s = [] @ (c # s) \<and> k (c # s) = Some g" by simp
    then show ?thesis by blast
  qed
qed

lemma pattern2_Some:
  assumes "pattern2 s = Some g"
  shows "\<exists>a post. s = ''youtube.com/watch?'' @ a @ ''v='' @ g @ post \<and> identifier_at g post"
proof -
  from assms obtain rest where r: "literal ''youtube.com/watch?'' s = Some rest"
    and d: "dot_star (literal_then_group ''v='') rest = Some g"
    by (auto simp: pattern2_def split: option.splits)
  from dot_star_Some[OF d] obtain a b where ab: "rest = a @ b" "literal_then_group ''v='' b = Some g"
    by blast
  from literal_then_group_Some[OF ab(2)] obtain post where "b = ''v='' @ g @ post" "identifier_at g post"
    by blast
  with literal_Some[OF r] ab(1) show ?thesis by auto
qed

lemma search_Some: "search m s = Some g \<Longrightarrow> \<exists>a b. s = a @ b \<and> m b = Some g"
proof (induction s)
  case Nil
  then show ?case by simp
next
  case (Cons c s)
  then consider "m (c # s) = Some g" | "search m s = Some g"
    by (auto dest: orelse_Some)
  then show ?case
  proof cases
    case 1
    then have "c # s = [] @ (c # s) \<and> m (c # s) = Some g" by simp
    then show ?thesis by blast
  next
    case 2
    with Cons.IH obtain a b where "s = a @ b" "m b = Some g" by blast
    then have "c # s = (c # a) @ b \<and> m b = Some g" by simp
    then show ?thesis by blast
  qed
qed

lemma extract_youtube_id_Some:
  assumes "extract_youtube_id url = Some g"
  shows "\<exists>pre post. url = pre @ g @ post \<and> identifier_at g post
     \<and> (\<exists>p\<in>set (openers @ [''v='']). \<exists>pre'. pre = pre' @ p)"
proof -
  from assms consider "search pattern1 url = Some g" | "search pattern2 url = Some g"
    by (auto simp: extract_youtube_id_def dest: orelse_Some)
  then show ?thesis
  proof cases
    case 1
    from search_Some[OF 1] obtain a b where ab: "url = a @ b" "pattern1 b = Some g" by blast
    from pattern1_Some[OF ab(2)] obtain p post where
      p: "p \<in> set openers" "b = p @ g @ post" "identifier_at g post" by blast
    have "url = (a @ p) @ g @ post" using ab p by simp
    with p show ?thesis by (intro exI[of _ "a @ p"] exI[of _ post]) auto
  next
    case 2
    from search_Some[OF 2] obtain a b where ab: "url = a @ b" "pattern2 b = Some g" by blast
    from pattern2_Some[OF ab(2)] obtain a' post where
      p: "b = ''youtube.com/watch?'' @ a' @ ''v='' @ g @ post" "identifier_at g post" by blast
    have "url = ((a @ ''youtube.com/watch?'' @ a') @ ''v='') @ g @ post" using ab p by simp
    with p show ?thesis
      by (intro exI[of _ "(a @ ''youtube.com/watch?'' @ a') @ ''v=''"] exI[of _ post]) auto
  qed
qed

lemma extract_youtube_id_nonempty: "extract_youtube_id url = Some g \<Longrightarrow> g \<noteq> []"
  using extract_youtube_id_Some[of url g] by (auto simp: identifier_at_def)

lemma search_None:
  assumes "\<And>b. m b \<noteq> None \<Longrightarrow> \<exists>p\<in>set ps. literal p b \<noteq> None"
    and "\<forall>p\<in>set ps. \<not> contains s p"
  shows "search m s = None"
proof (rule ccontr)
  assume "search m s \<noteq> None"
  then obtain g where "search m s = Some g" by auto
  from search_Some[OF this] obtain a b where ab: "s = a @ b" "m b = Some g" by blast
  with assms(1)[of b] obtain p where "p \<in> set ps" "literal p b \<noteq> None" by auto
  with ab assms(2) literal_contains[of p b a] show False by auto
qed

lemma pattern1_literal: "pattern1 b \<noteq> None \<Longrightarrow> \<exists>p\<in>set openers. literal p b \<noteq> None"
  unfolding pattern1_def openers_def literal_then_group_def
  by (auto simp: orelse_None split: option.splits)

lemma pattern2_literal:
  "pattern2 b \<noteq> None \<Longrightarrow> \<exists>p\<in>set [''youtube.com/watch?'']. literal p b \<noteq> None"
  unfolding pattern2_def by (auto split: option.splits)

lemma literal_prefix: "literal (p @ q) s \<noteq> None \<Longrightarrow> literal p s \<noteq> None"
  by (induction p s rule: literal.induct) (auto split: if_splits)

lemma contains_prefix: "contains s (p @ q) \<Longrightarrow> contains s p"
proof (induction s)
  case Nil
  then show ?case by simp
next
  case (Cons c s)
  then show ?case using literal_prefix[of p q "c # s"] by auto
qed

lemma extract_youtube_id_None:
  assumes "\<not> contains url ''youtube.com/watch?''" "\<not> contains url ''youtu.be/''"
    "\<not> contains url ''youtube.com/embed/''"
  shows "extract_youtube_id url = None"
proof -
  have w: "\<not> contains url ''youtube.com/watch?v=''"
    using assms(1) contains_prefix[of url "''youtube.com/watch?''" "''v=''"] by auto
  have "search pattern1 url = None"
    using pattern1_literal w assms by (intro search_None[where ps = openers]) (auto simp: openers_def)
  moreover have "search pattern2 url = None"
    using pattern2_literal assms(1) by (intro search_None[where ps = "[''youtube.com/watch?'']"]) auto
  ultimately show ?thesis by (simp add: extract_youtube_id_def)
qed

lemmas regex_eval = extract_youtube_id_def pattern1_def pattern2_def literal_then_group_def
  id_group_def idchar_def

lemma youtube_id_watch_example: "extract_youtube_id ''https://www.youtube.com/watch?v=ABC123&t=5'' = Some ''ABC123''"
  by (simp add: regex_eval)

lemma youtube_id_short_example: "extract_youtube_id ''https://youtu.be/XYZ789?x=1'' = Some ''XYZ789''"
  by (simp add: regex_eval)

lemma youtube_id_other_example: "extract_youtube_id ''https://example.com/clip'' = None"
  by (simp add: regex_eval)

lemma youtube_id_last_v_example: "extract_youtube_id ''http://youtube.com/watch?a=1&v=Q_1&v=zz#t'' = Some ''zz''"
  by (simp add: regex_eval)

lemma video_id_watch_example: "extract_video_id ''https://www.youtube.com/watch?v=ABC123&t=5'' = Inr ''ABC123''"
  by (simp add: extract_video_id_def split_def)

lemma video_id_short_example: "extract_video_id ''https://youtu.be/XYZ789?x=1'' = Inr ''XYZ789''"
  by (simp add: extract_video_id_def split_def)

lemma video_id_fragment_example: "extract_video_id ''https://www.youtube.com/watch?v=ABC#t=5'' = Inr ''ABC#t=5''"
  by (simp add: extract_video_id_def split_def)

lemma video_id_bare_host_example: "extract_video_id ''https://youtu.be'' = Inl IndexError"
  by (simp add: extract_video_id_def split_def)


lemma split_aux_no_sep: "\<not> contains s (p # ps) \<Longrightarrow> split_aux p ps cur s = [cur @ s]"
  by (induction s arbitrary: cur) (auto split: option.splits)

lemma split_aux_char_first:
  "index (split_aux c [] cur s) 0 = Inr (cur @ takeWhile (\<lambda>x. x \<noteq> c) s)"
  by (induction s arbitrary: cur) auto

lemma text_before_after:
  "contains s (p # ps) \<Longrightarrow> s = text_before (p # ps) s @ (p # ps) @ text_after (p # ps) s"
proof (induction s)
  case Nil
  then show ?case by simp
next
  case (Cons c s)
  show ?case
  proof (cases "literal (p # ps) (c # s)")
    case None
    with Cons show ?thesis by simp
  next
    case (Some r)
    from literal_Some[OF Some] Some show ?thesis by simp
  qed
qed

lemma text_before_absent: "\<not> contains s (p # ps) \<Longrightarrow> text_before (p # ps) s = s"
  by (induction s) auto

lemma text_before_clean: "\<not> contains (text_before (p # ps) s) (p # ps)"
proof (induction s)
  case Nil
  then show ?case by simp
next
  case (Cons c s)
  show ?case
  proof (cases "literal (p # ps) (c # s)")
    case (Some r)
    then show ?thesis by simp
  next
    case None
    have "literal (p # ps) (c # text_before (p # ps) s) = None"
    proof (cases "contains s (p # ps)")
      case False
      with None show ?thesis by (simp add: text_before_absent)
    next
      case True
      show ?thesis
      proof (rule ccontr)
        assume "literal (p # ps) (c # text_before (p # ps) s) \<noteq> None"
        then obtain r where r: "literal (p # ps) (c # text_before (p # ps) s) = Some r" by auto
        from literal_Some[OF r] have e: "c # text_before (p # ps) s = (p # ps) @ r" .
        have "c # s = (c # text_before (p # ps) s) @ (p # ps) @ text_after (p # ps) s"
          using text_before_after[OF True] by simp
        then have "c # s = (p # ps) @ (r @ (p # ps) @ text_after (p # ps) s)"
          unfolding e by simp
        then have "literal (p # ps) (c # s) = Some (r @ (p # ps) @ text_after (p # ps) s)"
          using literal_append[of "p # ps" "r @ (p # ps) @ text_after (p # ps) s"] by simp
        with None show False by simp
      qed
    qed
    with Cons None show ?thesis by simp
  qed
qed

lemma contains_short: "length t < length sep \<Longrightarrow> \<not> contains t sep"
proof (induction t)
  case Nil
  then show ?case by auto
next
  case (Cons c t)
  have "literal sep (c # t) = None"
  proof (rule ccontr)
    assume "literal sep (c # t) \<noteq> None"
    then obtain r where "literal sep (c # t) = Some r" by auto
    from literal_Some[OF this] have "length (c # t) = length sep + length r"
      by (metis length_append)
    with Cons.prems show False by simp
  qed
  with Cons show ?case by simp
qed

lemma text_before_first:
  "contains s (p # ps) \<Longrightarrow> \<not> contains (text_before (p # ps) s @ butlast (p # ps)) (p # ps)"
proof (induction s)
  case Nil
  then show ?case by simp
next
  case (Cons c s)
  show ?case
  proof (cases "literal (p # ps) (c # s)")
    case (Some r)
    have "\<not> contains (butlast (p # ps)) (p # ps)"
      by (rule contains_short) simp
    with Some show ?thesis by simp
  next
    case None
    with Cons.prems have occ: "contains s (p # ps)" by simp
    let ?b = "text_before (p # ps) s"
    have "literal (p # ps) (c # ?b @ butlast (p # ps)) = None"
    proof (rule ccontr)
      assume "literal (p # ps) (c # ?b @ butlast (p # ps)) \<noteq> None"
      then obtain r where r: "literal (p # ps) (c # ?b @ butlast (p # ps)) = Some r" by auto
      from literal_Some[OF r] have e: "c # ?b @ butlast (p # ps) = (p # ps) @ r" .
      have "c # s = c # ?b @ (butlast (p # ps) @ [last (p # ps)]) @ text_after (p # ps) s"
        using text_before_after[OF occ] append_butlast_last_id[of "p # ps"]
        by (simp del: butlast.simps last.simps)
      then have "c # s = (c # ?b @ butlast (p # ps)) @ [last (p # ps)] @ text_after (p # ps) s"
        by simp
      then have "c # s = (p # ps) @ (r @ [last (p # ps)] @ text_after (p # ps) s)"
        unfolding e by simp
      then have "literal (p # ps) (c # s) = Some (r @ [last (p # ps)] @ text_after (p # ps) s)"
        using literal_append[of "p # ps" "r @ [last (p # ps)] @ text_after (p # ps) s"] by simp
      with None show False by simp
    qed
    with Cons.IH[OF occ] None show ?thesis by simp
  qed
qed

lemma text_before_char: "text_before [c] s = takeWhile (\<lambda>x. x \<noteq> c) s"
  by (induction s) auto

lemma split_aux_pieces:
  "split_aux p ps cur s =
     (cur @ text_before (p # ps) s)
     # (if contains s (p # ps) then split_aux p ps [] (text_after (p # ps) s) else [])"
proof (induction p ps cur s rule: split_aux.induct)
  case (1 p ps cur)
  then show ?case by simp
next
  case (2 p ps cur c cs)
  show ?case
  proof (cases "literal (p # ps) (c # cs)")
    case None
    with 2(1)[OF None] show ?thesis by simp
  next
    case (Some r)
    with 2(2)[OF Some] show ?thesis by simp
  qed
qed

lemma split_second_piece:
  assumes "contains s (p # ps)"
  shows "and_then (split s (p # ps)) (\<lambda>parts. index parts 1)
     = Inr (text_before (p # ps) (text_after (p # ps) s))"
proof -
  have "split_aux p ps [] s = text_before (p # ps) s # split_aux p ps [] (text_after (p # ps) s)"
    using split_aux_pieces[of p ps "[]" s] assms by simp
  moreover have "split_aux p ps [] (text_after (p # ps) s)
      = text_before (p # ps) (text_after (p # ps) s)
        # (if contains (text_after (p # ps) s) (p # ps)
           then split_aux p ps [] (text_after (p # ps) (text_after (p # ps) s)) else [])"
    using split_aux_pieces[of p ps "[]" "text_after (p # ps) s"] by simp
  ultimately show ?thesis by (simp add: split_def)
qed

lemma split_first_piece:
  "and_then (split s [c]) (\<lambda>parts. index parts 0) = Inr (takeWhile (\<lambda>x. x \<noteq> c) s)"
  by (simp add: split_def split_aux_char_first)

lemma split_chain:
  assumes "contains url (p # ps)"
  shows "and_then (split url (p # ps)) (\<lambda>parts. and_then (index parts 1)
            (\<lambda>rest. and_then (split rest [c]) (\<lambda>parts. index parts 0)))
     = Inr (takeWhile (\<lambda>x. x \<noteq> c) (text_before (p # ps) (text_after (p # ps) url)))"
proof -
  from split_second_piece[OF assms] obtain parts where
    s: "split url (p # ps) = Inr parts"
    and i: "index parts 1 = Inr (text_before (p # ps) (text_after (p # ps) url))"
    by (cases "split url (p # ps)") auto
  show ?thesis
    using split_first_piece[of "text_before (p # ps) (text_after (p # ps) url)" c]
    by (simp add: s i[unfolded One_nat_def])
qed

lemma extract_video_id_cases:
  "contains url ''youtube.com'' \<Longrightarrow> contains url ''v='' \<Longrightarrow>
     extract_video_id url
       = Inr (takeWhile (\<lambda>c. c \<noteq> CHR ''&'') (text_before ''v='' (text_after ''v='' url)))"
  "contains url ''youtube.com'' \<Longrightarrow> \<not> contains url ''v='' \<Longrightarrow> contains url ''/embed/'' \<Longrightarrow>
     extract_video_id url
       = Inr (takeWhile (\<lambda>c. c \<noteq> CHR ''?'') (text_before ''/embed/'' (text_after ''/embed/'' url)))"
  "contains url ''youtube.com'' \<Longrightarrow> \<not> contains url ''v='' \<Longrightarrow> \<not> contains url ''/embed/'' \<Longrightarrow>
     extract_video_id url = Inr []"
  "\<not> contains url ''youtube.com'' \<Longrightarrow> contains url ''youtu.be/'' \<Longrightarrow>
     extract_video_id url
       = Inr (takeWhile (\<lambda>c. c \<noteq> CHR ''?'') (text_before ''youtu.be/'' (text_after ''youtu.be/'' url)))"
  "\<not> contains url ''youtube.com'' \<Longrightarrow> \<not> contains url ''youtu.be'' \<Longrightarrow>
     extract_video_id url = Inr []"
proof -
  show "contains url ''youtube.com'' \<Longrightarrow> contains url ''v='' \<Longrightarrow>
     extract_video_id url
       = Inr (takeWhile (\<lambda>c. c \<noteq> CHR ''&'') (text_before ''v='' (text_after ''v='' url)))"
    using split_chain[of url "CHR ''v''" "''=''" "CHR ''&''"]
    by (simp add: extract_video_id_def)
  show "contains url ''youtube.com'' \<Longrightarrow> \<not> contains url ''v='' \<Longrightarrow> contains url ''/embed/'' \<Longrightarrow>
     extract_video_id url
       = Inr (takeWhile (\<lambda>c. c \<noteq> CHR ''?'') (text_before ''/embed/'' (text_after ''/embed/'' url)))"
    using split_chain[of url "CHR ''/''" "''embed/''" "CHR ''?''"]
    by (simp add: extract_video_id_def)
  show "contains url ''youtube.com'' \<Longrightarrow> \<not> contains url ''v='' \<Longrightarrow> \<not> contains url ''/embed/'' \<Longrightarrow>
     extract_video_id url = Inr []"
    by (simp add: extract_video_id_def)
  show "\<not> contains url ''youtube.com'' \<Longrightarrow> contains url ''youtu.be/'' \<Longrightarrow>
     extract_video_id url
       = Inr (takeWhile (\<lambda>c. c \<noteq> CHR ''?'') (text_before ''youtu.be/'' (text_after ''youtu.be/'' url)))"
    using split_chain[of url "CHR ''y''" "''outu.be/''" "CHR ''?''"]
      contains_prefix[of url "''youtu.be''" "''/''"]
    by (simp add: extract_video_id_def)
  show "\<not> contains url ''youtube.com'' \<Longrightarrow> \<not> contains url ''youtu.be'' \<Longrightarrow>
     extract_video_id url = Inr []"
    by (simp add: extract_video_id_def)
qed

text \<open>
  Claim C3, as amended. \<open>extract_youtube_id\<close> of simple_backend.py tries its two patterns
  in order and returns the first captured group: a non-empty piece of the URL without
  \<open>&\<close>, newline, \<open>?\<close> or \<open>#\<close>, which follows \<open>youtube.com/watch?v=\<close>, \<open>youtu.be/\<close>,
  \<open>youtube.com/embed/\<close> or (second pattern) a later \<open>v=\<close>, and which ends at the next of
  those four characters or at the end of the URL. It returns \<open>None\<close>, and does not
  raise, when no pattern matches, as on a URL that contains none of
  \<open>youtube.com/watch?\<close>, \<open>youtu.be/\<close> and \<open>youtube.com/embed/\<close>.

  \<open>extract_video_id\<close> of backend.py splits the URL instead. For a URL that contains
  \<open>youtube.com\<close>: when it contains \<open>v=\<close>, the identifier is the text after the first
  \<open>v=\<close> up to the next \<open>v=\<close> or \<open>&\<close>, whichever comes first, or the end; when it
  contains no \<open>v=\<close> but \<open>/embed/\<close>, the text after the first \<open>/embed/\<close> up to the next
  \<open>/embed/\<close> or \<open>?\<close> or the end; when it contains neither, the empty string. For a URL
  without \<open>youtube.com\<close> that contains \<open>youtu.be/\<close>, it is the text after the first
  \<open>youtu.be/\<close> up to the next \<open>youtu.be/\<close> or \<open>?\<close> or the end. For a URL with neither
  \<open>youtube.com\<close> nor \<open>youtu.be\<close> it is the empty string. Here \<open>text_before\<close> and
  \<open>text_after\<close> are the two sides of the first occurrence of a separator.

  Both functions give \<open>ABC123\<close> on \<open>https://www.youtube.com/watch?v=ABC123&t=5\<close> and
  \<open>XYZ789\<close> on \<open>https://youtu.be/XYZ789?x=1\<close>.
\<close>

theorem video_identifier_extraction:
  "(extract_youtube_id url = Some g \<longrightarrow>
      (\<exists>pre post. url = pre @ g @ post \<and> identifier_at g post
         \<and> (\<exists>p\<in>set (openers @ [''v='']). \<exists>pre'. pre = pre' @ p)))
   \<and> (search pattern1 url = Some g \<longrightarrow> extract_youtube_id url = Some g)
   \<and> (search pattern1 url = None \<longrightarrow> extract_youtube_id url = search pattern2 url)
   \<and> (\<not> contains url ''youtube.com/watch?'' \<and> \<not> contains url ''youtu.be/''
        \<and> \<not> contains url ''youtube.com/embed/'' \<longrightarrow> extract_youtube_id url = None)
   \<and> extract_youtube_id ''https://www.youtube.com/watch?v=ABC123&t=5'' = Some ''ABC123''
   \<and> extract_youtube_id ''https://youtu.be/XYZ789?x=1'' = Some ''XYZ789''
   \<and> extract_youtube_id ''https://example.com/clip'' = None
   \<and> extract_video_id ''https://www.youtube.com/watch?v=ABC123&t=5'' = Inr ''ABC123''
   \<and> extract_video_id ''https://youtu.be/XYZ789?x=1'' = Inr ''XYZ789''
   \<and> extract_video_id ''https://example.com/clip'' = Inr []
   \<and> (contains url ''youtube.com'' \<and> contains url ''v='' \<longrightarrow>
        extract_video_id url
          = Inr (takeWhile (\<lambda>c. c \<noteq> CHR ''&'') (text_before ''v='' (text_after ''v='' url))))
   \<and> (contains url ''youtube.com'' \<and> \<not> contains url ''v='' \<and> contains url ''/embed/'' \<longrightarrow>
        extract_video_id url
          = Inr (takeWhile (\<lambda>c. c \<noteq> CHR ''?'')
                  (text_before ''/embed/'' (text_after ''/embed/'' url))))
   \<and> (contains url ''youtube.com'' \<and> \<not> contains url ''v='' \<and> \<not> contains url ''/embed/''
        \<longrightarrow> extract_video_id url = Inr [])
   \<and> (\<not> contains url ''youtube.com'' \<and> contains url ''youtu.be/'' \<longrightarrow>
        extract_video_id url
          = Inr (takeWhile (\<lambda>c. c \<noteq> CHR ''?'')
                  (text_before ''youtu.be/'' (text_after ''youtu.be/'' url))))
   \<and> (\<not> contains url ''youtube.com'' \<and> \<not> contains url ''youtu.be''
        \<longrightarrow> extract_video_id url = Inr [])
   \<and> (contains s (p # ps) \<longrightarrow>
        s = text_before (p # ps) s @ (p # ps) @ text_after (p # ps) s)
   \<and> \<not> contains (text_before (p # ps) s) (p # ps)
   \<and> (contains s (p # ps)
        \<longrightarrow> \<not> contains (text_before (p # ps) s @ butlast (p # ps)) (p # ps))
   \<and> (\<not> contains s (p # ps) \<longrightarrow> text_before (p # ps) s = s)"
proof -
  have c1: "extract_youtube_id url = Some g \<longrightarrow>
      (\<exists>pre post. url = pre @ g @ post \<and> identifier_at g post
         \<and> (\<exists>p\<in>set (openers @ [''v='']). \<exists>pre'. pre = pre' @ p))"
    using extract_youtube_id_Some[of url g] by blast
  have c2: "search pattern1 url = Some g \<longrightarrow> extract_youtube_id url = Some g"
    by (simp add: extract_youtube_id_def)
  have c3: "search pattern1 url = None \<longrightarrow> extract_youtube_id url = search pattern2 url"
    by (simp add: extract_youtube_id_def)
  have c4: "\<not> contains url ''youtube.com/watch?'' \<and> \<not> contains url ''youtu.be/''
        \<and> \<not> contains url ''youtube.com/embed/'' \<longrightarrow> extract_youtube_id url = None"
    using extract_youtube_id_None[of url] by blast
  have c10: "extract_video_id ''https://example.com/clip'' = Inr []"
    by (simp add: extract_video_id_def)
  have v1: "contains url ''youtube.com'' \<and> contains url ''v='' \<longrightarrow>
        extract_video_id url
          = Inr (takeWhile (\<lambda>c. c \<noteq> CHR ''&'') (text_before ''v='' (text_after ''v='' url)))"
    using extract_video_id_cases(1)[of url] by blast
  have v2: "contains url ''youtube.com'' \<and> \<not> contains url ''v='' \<and> contains url ''/embed/'' \<longrightarrow>
        extract_video_id url
          = Inr (takeWhile (\<lambda>c. c \<noteq> CHR ''?'')
                  (text_before ''/embed/'' (text_after ''/embed/'' url)))"
    using extract_video_id_cases(2)[of url] by blast
  have v3: "contains url ''youtube.com'' \<and> \<not> contains url ''v='' \<and> \<not> contains url ''/embed/''
        \<longrightarrow> extract_video_id url = Inr []"
    using extract_video_id_cases(3)[of url] by blast
  have v4: "\<not> contains url ''youtube.com'' \<and> contains url ''youtu.be/'' \<longrightarrow>
        extract_video_id url
          = Inr (takeWhile (\<lambda>c. c \<noteq> CHR ''?'')
                  (text_before ''youtu.be/'' (text_after ''youtu.be/'' url)))"
    using extract_video_id_cases(4)[of url] by blast
  have v5: "\<not> contains url ''youtube.com'' \<and> \<not> contains url ''youtu.be''
        \<longrightarrow> extract_video_id url = Inr []"
    using extract_video_id_cases(5)[of url] by blast
  have v6: "contains s (p # ps) \<longrightarrow>
        s = text_before (p # ps) s @ (p # ps) @ text_after (p # ps) s"
    using text_before_after[of s p ps] by blast
  have v7: "\<not> contains (text_before (p # ps) s) (p # ps)"
    by (rule text_before_clean)
  have v7b: "contains s (p # ps)
        \<longrightarrow> \<not> contains (text_before (p # ps) s @ butlast (p # ps)) (p # ps)"
    using text_before_first[of s p ps] by blast
  have v8: "\<not> contains s (p # ps) \<longrightarrow> text_before (p # ps) s = s"
    using text_before_absent[of s p ps] by blast
  show ?thesis
    by (intro conjI c1 c2 c3 c4 youtube_id_watch_example youtube_id_short_example
        youtube_id_other_example video_id_watch_example video_id_short_example c10
        v1 v2 v3 v4 v5 v6 v7 v7b v8)
qed

theorem video_identifier_extraction_witness:
  "extract_youtube_id ''https://youtu.be/XYZ789?x=1'' = Some ''XYZ789''
   \<and> (\<exists>pre post. ''https://youtu.be/XYZ789?x=1'' = pre @ ''XYZ789'' @ post
         \<and> identifier_at ''XYZ789'' post
         \<and> (\<exists>p\<in>set (openers @ [''v='']). \<exists>pre'. pre = pre' @ p))
   \<and> \<not> contains ''https://example.com/clip'' ''youtube.com/watch?''
   \<and> \<not> contains ''https://example.com/clip'' ''youtu.be/''
   \<and> \<not> contains ''https://example.com/clip'' ''youtube.com/embed/''
   \<and> extract_youtube_id ''https://example.com/clip'' = None
   \<and> contains ''https://www.youtube.com/watch?v=ABCv=DEF&t=5'' ''youtube.com''
   \<and> contains ''https://www.youtube.com/watch?v=ABCv=DEF&t=5'' ''v=''
   \<and> extract_video_id ''https://www.youtube.com/watch?v=ABCv=DEF&t=5'' = Inr ''ABC''
   \<and> contains ''https://www.youtube.com/embed/EMB42?rel=0'' ''/embed/''
   \<and> \<not> contains ''https://www.youtube.com/embed/EMB42?rel=0'' ''v=''
   \<and> extract_video_id ''https://www.youtube.com/embed/EMB42?rel=0'' = Inr ''EMB42''
   \<and> contains ''https://youtu.be/abc?ref=youtube.com'' ''youtube.com''
   \<and> \<not> contains ''https://youtu.be/abc?ref=youtube.com'' ''v=''
   \<and> \<not> contains ''https://youtu.be/abc?ref=youtube.com'' ''/embed/''
   \<and> extract_video_id ''https://youtu.be/abc?ref=youtube.com'' = Inr []
   \<and> \<not> contains ''https://youtu.be/XYZ789#a?x=1'' ''youtube.com''
   \<and> contains ''https://youtu.be/XYZ789#a?x=1'' ''youtu.be/''
   \<and> extract_video_id ''https://youtu.be/XYZ789#a?x=1'' = Inr ''XYZ789#a''
   \<and> \<not> contains ''https://example.com/clip'' ''youtube.com''
   \<and> \<not> contains ''https://example.com/clip'' ''youtu.be''
   \<and> extract_video_id ''https://example.com/clip'' = Inr []
   \<and> ''a=1&v=ABCv=DEF'' = text_before ''v='' ''a=1&v=ABCv=DEF'' @ ''v=''
         @ text_after ''v='' ''a=1&v=ABCv=DEF''
   \<and> text_before ''v='' ''a=1&v=ABCv=DEF'' = ''a=1&''
   \<and> text_after ''v='' ''a=1&v=ABCv=DEF'' = ''ABCv=DEF''
   \<and> \<not> contains (text_before ''v='' ''a=1&v=ABCv=DEF'' @ butlast ''v='') ''v=''
   \<and> text_before ''v='' ''ABC#t'' = ''ABC#t''"
proof -
  have a: "extract_youtube_id ''https://youtu.be/XYZ789?x=1'' = Some ''XYZ789''"
    by (simp add: regex_eval)
  have c: "\<not> contains ''https://example.com/clip'' ''youtube.com/watch?''"
      "\<not> contains ''https://example.com/clip'' ''youtu.be/''"
      "\<not> contains ''https://example.com/clip'' ''youtube.com/embed/''"
    by simp_all
  have h1: "contains ''https://www.youtube.com/watch?v=ABCv=DEF&t=5'' ''youtube.com''"
      "contains ''https://www.youtube.com/watch?v=ABCv=DEF&t=5'' ''v=''"
    by simp_all
  have h2: "contains ''https://www.youtube.com/embed/EMB42?rel=0'' ''/embed/''"
      "\<not> contains ''https://www.youtube.com/embed/EMB42?rel=0'' ''v=''"
      "contains ''https://www.youtube.com/embed/EMB42?rel=0'' ''youtube.com''"
    by simp_all
  have h3: "contains ''https://youtu.be/abc?ref=youtube.com'' ''youtube.com''"
      "\<not> contains ''https://youtu.be/abc?ref=youtube.com'' ''v=''"
      "\<not> contains ''https://youtu.be/abc?ref=youtube.com'' ''/embed/''"
    by simp_all
  have h4: "\<not> contains ''https://youtu.be/XYZ789#a?x=1'' ''youtube.com''"
      "contains ''https://youtu.be/XYZ789#a?x=1'' ''youtu.be/''"
    by simp_all
  have h5: "\<not> contains ''https://example.com/clip'' ''youtube.com''"
      "\<not> contains ''https://example.com/clip'' ''youtu.be''"
    by simp_all
  have h6: "contains ''a=1&v=ABCv=DEF'' ''v=''" "\<not> contains ''ABC#t'' ''v=''"
    by simp_all
  note t0 = video_identifier_extraction[where url = "''https://youtu.be/XYZ789?x=1''"
      and g = "''XYZ789''"]
  have w0: "\<exists>pre post. ''https://youtu.be/XYZ789?x=1'' = pre @ ''XYZ789'' @ post
         \<and> identifier_at ''XYZ789'' post
         \<and> (\<exists>p\<in>set (openers @ [''v='']). \<exists>pre'. pre = pre' @ p)"
    using t0 a by blast
  note t5 = video_identifier_extraction[where url = "''https://example.com/clip''"
      and s = "''a=1&v=ABCv=DEF''" and p = "CHR ''v''" and ps = "''=''"]
  have w5a: "extract_youtube_id ''https://example.com/clip'' = None"
    using t5 c by blast
  have w5: "extract_video_id ''https://example.com/clip'' = Inr []"
    using t5 h5 by blast
  have w6: "''a=1&v=ABCv=DEF'' = text_before ''v='' ''a=1&v=ABCv=DEF'' @ ''v=''
         @ text_after ''v='' ''a=1&v=ABCv=DEF''"
    using t5 h6(1) by blast
  have w7: "text_before ''v='' ''a=1&v=ABCv=DEF'' = ''a=1&''"
    "text_after ''v='' ''a=1&v=ABCv=DEF'' = ''ABCv=DEF''"
    by simp_all
  note t1 = video_identifier_extraction[
      where url = "''https://www.youtube.com/watch?v=ABCv=DEF&t=5''"
      and s = "''ABC#t''" and p = "CHR ''v''" and ps = "''=''"]
  have "extract_video_id ''https://www.youtube.com/watch?v=ABCv=DEF&t=5''
      = Inr (takeWhile (\<lambda>c. c \<noteq> CHR ''&'')
          (text_before ''v='' (text_after ''v='' ''https://www.youtube.com/watch?v=ABCv=DEF&t=5'')))"
    using t1 h1 by blast
  then have w1: "extract_video_id ''https://www.youtube.com/watch?v=ABCv=DEF&t=5'' = Inr ''ABC''"
    by simp
  have w8: "text_before ''v='' ''ABC#t'' = ''ABC#t''"
    using t1 h6(2) by blast
  have w9: "\<not> contains (text_before ''v='' ''a=1&v=ABCv=DEF'' @ butlast ''v='') ''v=''"
    using t5 h6(1) by blast
  note t2 = video_identifier_extraction[where url = "''https://www.youtube.com/embed/EMB42?rel=0''"]
  have "extract_video_id ''https://www.youtube.com/embed/EMB42?rel=0''
      = Inr (takeWhile (\<lambda>c. c \<noteq> CHR ''?'')
          (text_before ''/embed/'' (text_after ''/embed/'' ''https://www.youtube.com/embed/EMB42?rel=0'')))"
    using t2 h2 by blast
  then have w2: "extract_video_id ''https://www.youtube.com/embed/EMB42?rel=0'' = Inr ''EMB42''"
    by simp
  note t3 = video_identifier_extraction[where url = "''https://youtu.be/abc?ref=youtube.com''"]
  have w3: "extract_video_id ''https://youtu.be/abc?ref=youtube.com'' = Inr []"
    using t3 h3 by blast
  note t4 = video_identifier_extraction[where url = "''https://youtu.be/XYZ789#a?x=1''"]
  have "extract_video_id ''https://youtu.be/XYZ789#a?x=1''
      = Inr (takeWhile (\<lambda>c. c \<noteq> CHR ''?'')
          (text_before ''youtu.be/'' (text_after ''youtu.be/'' ''https://youtu.be/XYZ789#a?x=1'')))"
    using t4 h4 by blast
  then have w4: "extract_video_id ''https://youtu.be/XYZ789#a?x=1'' = Inr ''XYZ789#a''"
    by simp
  show ?thesis
    by (intro conjI a w0 c w5a h1 w1 h2(1,2) w2 h3 w3 h4 w4 h5 w5 w6 w7 w9 w8)
qed

theorem video_identifier_extraction_counterexample:
  "extract_video_id ''https://www.youtube.com/watch?v=ABC#t=5'' = Inr ''ABC#t=5''
   \<and> terminator (CHR ''#'')
   \<and> extract_youtube_id ''https://www.youtube.com/watch?v=ABC#t=5'' = Some ''ABC''"
  by (simp add: extract_video_id_def split_def terminator_def regex_eval)

section \<open>Properties of the Fallback URL Generator\<close>

lemma split_aux_nonempty: "split_aux p ps cur s \<noteq> []"
  by (induction p ps cur s rule: split_aux.induct) (auto split: option.splits)

lemma split_aux_two:
  "contains s (p # ps) \<Longrightarrow> \<exists>a b rest. split_aux p ps cur s = a # b # rest"
proof (induction s arbitrary: cur)
  case Nil
  then show ?case by simp
next
  case (Cons c s)
  show ?case
  proof (cases "literal (p # ps) (c # s)")
    case None
    with Cons show ?thesis by simp
  next
    case (Some r)
    with split_aux_nonempty[of p ps "[]" r] show ?thesis
      by (auto simp: neq_Nil_conv)
  qed
qed

lemma extract_video_id_raises_iff:
  "(\<exists>e. extract_video_id url = Inl e) \<longleftrightarrow>
     (\<not> contains url ''youtube.com'' \<and> contains url ''youtu.be'' \<and> \<not> contains url ''youtu.be/'')"
proof -
  have ok: "\<exists>v. and_then (split url (p # ps)) (\<lambda>parts. and_then (index parts 1)
             (\<lambda>rest. and_then (split rest [c]) (\<lambda>parts. index parts 0))) = Inr v"
    if "contains url (p # ps)" for p ps c
  proof -
    from split_aux_two[OF that, of "[]"] obtain a b rest
      where "split_aux p ps [] url = a # b # rest" by blast
    then show ?thesis by (simp add: split_def split_aux_char_first)
  qed
  have bad: "and_then (split url (p # ps)) (\<lambda>parts. and_then (index parts 1)
             (\<lambda>rest. and_then (split rest [c]) (\<lambda>parts. index parts 0))) = Inl IndexError"
    if "\<not> contains url (p # ps)" for p ps c
    using that by (simp add: split_def split_aux_no_sep)
  show ?thesis
  proof (cases "contains url ''youtube.com''")
    case True
    then show ?thesis
      using ok[of "CHR ''v''" "''=''" "CHR ''&''"] ok[of "CHR ''/''" "''embed/''" "CHR ''?''"]
      by (auto simp: extract_video_id_def)
  next
    case False
    then show ?thesis
      using ok[of "CHR ''y''" "''outu.be/''" "CHR ''?''"] bad[of "CHR ''y''" "''outu.be/''" "CHR ''?''"]
      by (auto simp: extract_video_id_def)
  qed
qed


text \<open>
  Claim C5. The claim says that \<open>generate_fallback_urls\<close> returns its five links for
  every URL and embeds the empty string when no identifier can be derived. On
  \<open>https://youtu.be\<close> the code raises instead: \<open>extract_video_id\<close> tests for \<open>youtu.be\<close>
  but splits at \<open>youtu.be/\<close>, which this URL does not contain, and takes the second
  piece of a one-piece list.
\<close>

theorem fallback_urls_bare_host:
  "extract_video_id ''https://youtu.be'' = Inl IndexError
   \<and> generate_fallback_urls ''https://youtu.be'' = Inl IndexError"
  by (simp add: generate_fallback_urls_def video_id_bare_host_example)

section \<open>Failure bodies of the download endpoints\<close>









section \<open>Failure responses of the metadata and stream endpoints\<close>




section \<open>Metadata by scraping\<close>

lemma literal_None_extend:
  "literal p s = None \<Longrightarrow> length p \<le> length s \<Longrightarrow> literal p (s @ w) = None"
  by (induction p s rule: literal.induct) (auto split: if_splits)

lemma replace_aux_suffix:
  "\<not> contains (t @ butlast (p # ps)) (p # ps) \<Longrightarrow> replace_aux p ps [] (t @ p # ps) = t"
proof (induction t)
  case Nil
  have "literal (p # ps) (p # ps) = Some []"
    using literal_append[of "p # ps" "[]"] by simp
  then show ?case by simp
next
  case (Cons c t)
  from Cons.prems have n: "literal (p # ps) ((c # t) @ butlast (p # ps)) = None"
    and r: "\<not> contains (t @ butlast (p # ps)) (p # ps)"
    by simp_all
  have x: "literal (p # ps) (((c # t) @ butlast (p # ps)) @ [last (p # ps)]) = None"
    using n by (rule literal_None_extend) simp
  have e: "((c # t) @ butlast (p # ps)) @ [last (p # ps)] = c # t @ p # ps"
    using append_butlast_last_id[of "p # ps"] by (simp del: butlast.simps last.simps)
  have "literal (p # ps) (c # t @ p # ps) = None"
    using x unfolding e .
  with Cons.IH[OF r] show ?case by simp
qed

lemma replace_aux_absent: "\<not> contains s (p # ps) \<Longrightarrow> replace_aux p ps new s = s"
  by (induction s) (auto split: option.splits)

lemma contains_first_char: "\<forall>c\<in>set s. c \<noteq> p \<Longrightarrow> \<not> contains s (p # ps)"
  by (induction s) auto

lemma strip_id: "s \<noteq> [] \<Longrightarrow> \<not> isspace (hd s) \<Longrightarrow> \<not> isspace (last s) \<Longrightarrow> strip s = s"
proof -
  assume s: "s \<noteq> []" and h: "\<not> isspace (hd s)" and l: "\<not> isspace (last s)"
  from s h have 1: "dropWhile isspace s = s" by (cases s) auto
  from s l have "\<not> isspace (hd (rev s))" by (simp add: hd_rev)
  with s have "dropWhile isspace (rev s) = rev s" by (cases "rev s") auto
  with 1 show ?thesis by (simp add: strip_def)
qed

lemma placeholder_kept:
  assumes "video_id \<noteq> []" and "\<forall>c\<in>set video_id. \<not> isspace c"
  shows "strip (replace (''Video '' @ video_id) '' - YouTube'' []) = ''Video '' @ video_id"
proof -
  have sp: "isspace (CHR '' '')" by (simp add: isspace_def)
  with assms(2) have nosp: "\<forall>c\<in>set video_id. c \<noteq> CHR '' ''" by auto
  then have tail: "\<not> contains video_id '' - YouTube''"
    by (rule contains_first_char)
  have mid: "literal ''- YouTube'' video_id = None"
  proof (cases video_id)
    case Nil
    then show ?thesis by simp
  next
    case (Cons a as)
    with nosp show ?thesis by (cases as) auto
  qed
  have "replace (''Video '' @ video_id) '' - YouTube'' [] = ''Video '' @ video_id"
    using tail mid by (simp add: replace_def replace_aux_absent)
  moreover have "strip (''Video '' @ video_id) = ''Video '' @ video_id"
    using assms by (intro strip_id) (simp_all add: isspace_def)
  ultimately show ?thesis by simp
qed

lemma title_pattern_Some:
  assumes "title_pattern s = Some t"
  shows "\<exists>post. s = ''<title>'' @ t @ ''</title>'' @ post \<and> t \<noteq> [] \<and> CHR ''<'' \<notin> set t"
proof -
  from assms obtain rest where r: "literal ''<title>'' s = Some rest"
    by (auto simp: title_pattern_def split: option.splits)
  let ?g = "takeWhile (\<lambda>c. c \<noteq> CHR ''<'') rest"
  let ?d = "dropWhile (\<lambda>c. c \<noteq> CHR ''<'') rest"
  from assms r have g: "?g \<noteq> []" "t = ?g"
    by (auto simp: title_pattern_def Let_def split: option.splits if_splits)
  from assms r g obtain post where p: "literal ''</title>'' ?d = Some post"
    by (auto simp: title_pattern_def Let_def split: option.splits if_splits)
  have "rest = ?g @ ?d" by simp
  with literal_Some[OF r] literal_Some[OF p] g
  have "s = ''<title>'' @ t @ ''</title>'' @ post" by simp
  moreover have "CHR ''<'' \<notin> set t"
    using g(2) by (auto dest: set_takeWhileD)
  ultimately show ?thesis using g by blast
qed

lemma search_title_Some:
  assumes "search title_pattern html = Some t"
  shows "(\<exists>pre post. html = pre @ ''<title>'' @ t @ ''</title>'' @ post)
     \<and> t \<noteq> [] \<and> CHR ''<'' \<notin> set t"
proof -
  from search_Some[OF assms] obtain a b where ab: "html = a @ b" "title_pattern b = Some t"
    by blast
  from title_pattern_Some[OF ab(2)] ab(1) show ?thesis by blast
qed

lemma search_title_None:
  assumes "\<not> contains html ''<title>''"
  shows "search title_pattern html = None"
proof (rule search_None[where ps = "[''<title>'']"])
  show "\<exists>p\<in>set [''<title>'']. literal p b \<noteq> None" if "title_pattern b \<noteq> None" for b
    using that by (auto simp: title_pattern_def split: option.splits)
  show "\<forall>p\<in>set [''<title>'']. \<not> contains html p" using assms by simp
qed

lemma get_youtube_info_cases:
  "fetch (''https://www.youtube.com/watch?v='' @ video_id) = None
     \<Longrightarrow> get_youtube_info fetch video_id = ''Video '' @ video_id"
  "fetch (''https://www.youtube.com/watch?v='' @ video_id) = Some html
     \<Longrightarrow> search title_pattern html = Some t
     \<Longrightarrow> get_youtube_info fetch video_id = strip (replace t '' - YouTube'' [])"
  "fetch (''https://www.youtube.com/watch?v='' @ video_id) = Some html
     \<Longrightarrow> search title_pattern html = None
     \<Longrightarrow> get_youtube_info fetch video_id
         = strip (replace (''Video '' @ video_id) '' - YouTube'' [])"
  by (simp_all add: get_youtube_info_def)

lemma replace_suffix:
  assumes "\<not> contains (t @ '' - YouTub'') '' - YouTube''"
  shows "replace (t @ '' - YouTube'') '' - YouTube'' [] = t"
  using replace_aux_suffix[of t "CHR '' ''" "''- YouTube''"] assms
  by (simp add: replace_def)

text \<open>
  Claim C8, as amended. \<open>get_youtube_info\<close> returns a title for every video identifier
  and every outcome of the page fetch, and never raises. When the fetch fails it returns
  \<open>Video <id>\<close>. When the page has a title marker (\<open><title>\<close>, a non-empty text without
  \<open><\<close>, \<open></title>\<close>) it returns the text of the first one with every occurrence of
  \<open> - YouTube\<close> removed, wherever it stands, and with leading and trailing whitespace
  trimmed; a title whose only occurrence is its suffix loses exactly that suffix. When
  the page has no marker it returns \<open>Video <id>\<close> cleaned in the same way, which is
  \<open>Video <id>\<close> itself for an identifier without whitespace. The thumbnail of
  \<open>handle_video_info\<close> is the fixed URL template around the video identifier.
\<close>

theorem scrape_metadata:
  "(fetch (''https://www.youtube.com/watch?v='' @ video_id) = None
      \<longrightarrow> get_youtube_info fetch video_id = ''Video '' @ video_id)
   \<and> (fetch (''https://www.youtube.com/watch?v='' @ video_id) = Some html
        \<and> search title_pattern html = Some t
      \<longrightarrow> get_youtube_info fetch video_id = strip (replace t '' - YouTube'' [])
         \<and> (\<exists>pre post. html = pre @ ''<title>'' @ t @ ''</title>'' @ post)
         \<and> t \<noteq> [] \<and> CHR ''<'' \<notin> set t)
   \<and> (\<not> contains (t0 @ '' - YouTub'') '' - YouTube''
      \<longrightarrow> replace (t0 @ '' - YouTube'') '' - YouTube'' [] = t0)
   \<and> (fetch (''https://www.youtube.com/watch?v='' @ video_id) = Some html
        \<and> search title_pattern html = None
      \<longrightarrow> get_youtube_info fetch video_id
           = strip (replace (''Video '' @ video_id) '' - YouTube'' []))
   \<and> (\<not> contains html ''<title>'' \<longrightarrow> search title_pattern html = None)
   \<and> (video_id \<noteq> [] \<and> (\<forall>c\<in>set video_id. \<not> isspace c)
      \<longrightarrow> strip (replace (''Video '' @ video_id) '' - YouTube'' []) = ''Video '' @ video_id)
   \<and> (query_params ''url'' = Some video_url \<and> extract_youtube_id video_url = Some video_id
      \<longrightarrow> json_lookup (handle_video_info fetch query_params) ''thumbnail''
             = Some (JStr (''https://i.ytimg.com/vi/'' @ video_id @ ''/hqdefault.jpg''))
         \<and> json_lookup (handle_video_info fetch query_params) ''title''
             = Some (JStr (get_youtube_info fetch video_id)))"
proof -
  have c1: "fetch (''https://www.youtube.com/watch?v='' @ video_id) = None
      \<longrightarrow> get_youtube_info fetch video_id = ''Video '' @ video_id"
    using get_youtube_info_cases(1)[of fetch video_id] by blast
  have c2: "fetch (''https://www.youtube.com/watch?v='' @ video_id) = Some html
        \<and> search title_pattern html = Some t
      \<longrightarrow> get_youtube_info fetch video_id = strip (replace t '' - YouTube'' [])
         \<and> (\<exists>pre post. html = pre @ ''<title>'' @ t @ ''</title>'' @ post)
         \<and> t \<noteq> [] \<and> CHR ''<'' \<notin> set t"
    using get_youtube_info_cases(2)[of fetch video_id html t] search_title_Some[of html t]
    by blast
  have c3: "\<not> contains (t0 @ '' - YouTub'') '' - YouTube''
      \<longrightarrow> replace (t0 @ '' - YouTube'') '' - YouTube'' [] = t0"
    using replace_suffix[of t0] by blast
  have c4: "fetch (''https://www.youtube.com/watch?v='' @ video_id) = Some html
        \<and> search title_pattern html = None
      \<longrightarrow> get_youtube_info fetch video_id
           = strip (replace (''Video '' @ video_id) '' - YouTube'' [])"
    using get_youtube_info_cases(3)[of fetch video_id html] by blast
  have c5: "\<not> contains html ''<title>'' \<longrightarrow> search title_pattern html = None"
    using search_title_None[of html] by blast
  have c6: "video_id \<noteq> [] \<and> (\<forall>c\<in>set video_id. \<not> isspace c)
      \<longrightarrow> strip (replace (''Video '' @ video_id) '' - YouTube'' []) = ''Video '' @ video_id"
    using placeholder_kept[of video_id] by blast
  have c7: "query_params ''url'' = Some video_url \<and> extract_youtube_id video_url = Some video_id
      \<longrightarrow> json_lookup (handle_video_info fetch query_params) ''thumbnail''
             = Some (JStr (''https://i.ytimg.com/vi/'' @ video_id @ ''/hqdefault.jpg''))
         \<and> json_lookup (handle_video_info fetch query_params) ''title''
             = Some (JStr (get_youtube_info fetch video_id))"
    using extract_youtube_id_nonempty[of video_url video_id]
    by (auto simp: handle_video_info_def json_lookup_def)
  show ?thesis by (intro conjI c1 c2 c3 c4 c5 c6 c7)
qed

theorem scrape_metadata_counterexample:
  "search title_pattern twice_page = Some ''My - YouTube Story - YouTube''
   \<and> get_youtube_info (\<lambda>u. Some twice_page) ''XYZ789'' = ''My Story''
   \<and> strip_suffix '' - YouTube'' ''My - YouTube Story - YouTube'' = ''My - YouTube Story''"
  by (simp add: get_youtube_info_def twice_page_def title_pattern_def replace_def strip_def
      isspace_def strip_suffix_def)

theorem scrape_metadata_witness:
  "get_youtube_info (\<lambda>u. None) ''XYZ789'' = ''Video XYZ789''
   \<and> search title_pattern titled_page = Some ''Foo Bar - YouTube''
   \<and> \<not> contains (''Foo Bar'' @ '' - YouTub'') '' - YouTube''
   \<and> get_youtube_info (\<lambda>u. Some titled_page) ''XYZ789'' = ''Foo Bar''
   \<and> \<not> contains untitled_page ''<title>''
   \<and> list_all (\<lambda>c. \<not> isspace c) ''XYZ789''
   \<and> get_youtube_info (\<lambda>u. Some untitled_page) ''XYZ789'' = ''Video XYZ789''
   \<and> sample_query ''url'' = Some ''https://youtu.be/XYZ789?x=1''
   \<and> json_lookup (handle_video_info (\<lambda>u. None) sample_query) ''thumbnail''
       = Some (JStr ''https://i.ytimg.com/vi/XYZ789/hqdefault.jpg'')"
proof -
  have h1: "search title_pattern titled_page = Some ''Foo Bar - YouTube''"
    by (simp add: titled_page_def title_pattern_def)
  have h2: "\<not> contains (''Foo Bar'' @ '' - YouTub'') '' - YouTube''"
    by simp
  have h3: "\<not> contains untitled_page ''<title>''"
    by (simp add: untitled_page_def)
  have h4: "''XYZ789'' \<noteq> []" "\<forall>c\<in>set ''XYZ789''. \<not> isspace c"
    by (simp_all add: isspace_def)
  have h5: "sample_query ''url'' = Some ''https://youtu.be/XYZ789?x=1''"
    by (simp add: sample_query_def)
  note t1 = scrape_metadata[where fetch = "\<lambda>u. None" and video_id = "''XYZ789''"
      and query_params = sample_query and video_url = "''https://youtu.be/XYZ789?x=1''"]
  have w1: "get_youtube_info (\<lambda>u. None) ''XYZ789'' = ''Video XYZ789''"
    using t1 by simp
  have w5: "json_lookup (handle_video_info (\<lambda>u. None) sample_query) ''thumbnail''
       = Some (JStr ''https://i.ytimg.com/vi/XYZ789/hqdefault.jpg'')"
    using t1 h5 youtube_id_short_example by simp
  note t2 = scrape_metadata[where fetch = "\<lambda>u. Some titled_page" and video_id = "''XYZ789''"
      and html = titled_page and t = "''Foo Bar - YouTube''" and ?t0.0 = "''Foo Bar''"]
  have "get_youtube_info (\<lambda>u. Some titled_page) ''XYZ789''
      = strip (replace (''Foo Bar'' @ '' - YouTube'') '' - YouTube'' [])"
    using t2 h1 by simp
  moreover have "replace (''Foo Bar'' @ '' - YouTube'') '' - YouTube'' [] = ''Foo Bar''"
    using t2 h2 by blast
  ultimately have w2: "get_youtube_info (\<lambda>u. Some titled_page) ''XYZ789'' = ''Foo Bar''"
    by (simp add: strip_def isspace_def)
  note t3 = scrape_metadata[where fetch = "\<lambda>u. Some untitled_page" and video_id = "''XYZ789''"
      and html = untitled_page]
  have "search title_pattern untitled_page = None"
    using t3 h3 by blast
  then have "get_youtube_info (\<lambda>u. Some untitled_page) ''XYZ789''
      = strip (replace (''Video '' @ ''XYZ789'') '' - YouTube'' [])"
    using t3 by blast
  moreover have "strip (replace (''Video '' @ ''XYZ789'') '' - YouTube'' []) = ''Video '' @ ''XYZ789''"
    using t3 h4 by blast
  ultimately have w3: "get_youtube_info (\<lambda>u. Some untitled_page) ''XYZ789'' = ''Video XYZ789''"
    by simp
  have w4: "list_all (\<lambda>c. \<not> isspace c) ''XYZ789''"
    using h4(2) by (simp add: list_all_iff)
  show ?thesis by (intro conjI w1 h1 h2 w2 h3 w4 w3 h5 w5)
qed

section \<open>The stream URL\<close>

lemma stream_success:
  assumes "stream_info (stream_video_url_selector quality) url = Inr info"
    and "stream_url info = Inr u"
  shows "fst (stream_video_url stream_info url quality) = 200
     \<and> json_lookup (snd (stream_video_url stream_info url quality)) ''stream_url''
         = Some (json_str u)"
  using assms by (simp add: stream_video_url_def json_lookup_def)

lemma stream_fails:
  assumes "stream_info (stream_video_url_selector quality) url = Inr info"
    and "stream_url info = Inl e"
  shows "stream_video_url stream_info url quality
     = (400, JObj [(''detail'', JStr (''Stream URL extraction failed: '' @ e))])"
  using assms by (simp add: stream_video_url_def http_exception_def)

text \<open>
  Claim C9, as amended. For a \<open>/stream\<close> request on which the oracle returns metadata:
  when the metadata has a top-level \<open>url\<close> key, the response has status 200 and its
  \<open>stream_url\<close> is the value of that key, \<open>null\<close> when the value is \<open>null\<close>; otherwise,
  when the \<open>formats\<close> list is non-empty, the response has status 200 and its \<open>stream_url\<close>
  is the \<open>url\<close> of the last format of the list, the empty string when that format has no
  \<open>url\<close> key and \<open>null\<close> when its value is \<open>null\<close>; when the metadata has neither a
  top-level \<open>url\<close> key nor a non-empty \<open>formats\<close> list, the request fails with status 400
  and the message \<open>No stream URL found\<close>.
\<close>

theorem stream_url_choice:
  "(stream_info (stream_video_url_selector quality) url = Inr info \<and> info_url info = Val u
      \<longrightarrow> fst (stream_video_url stream_info url quality) = 200
         \<and> json_lookup (snd (stream_video_url stream_info url quality)) ''stream_url''
             = Some (JStr u))
   \<and> (stream_info (stream_video_url_selector quality) url = Inr info \<and> info_url info = Null
      \<longrightarrow> fst (stream_video_url stream_info url quality) = 200
         \<and> json_lookup (snd (stream_video_url stream_info url quality)) ''stream_url''
             = Some JNull)
   \<and> (stream_info (stream_video_url_selector quality) url = Inr info \<and> info_url info = Absent
        \<and> info_formats info = Val fs \<and> fs \<noteq> [] \<and> raw_url (last fs) = Val v
      \<longrightarrow> fst (stream_video_url stream_info url quality) = 200
         \<and> json_lookup (snd (stream_video_url stream_info url quality)) ''stream_url''
             = Some (JStr v))
   \<and> (stream_info (stream_video_url_selector quality) url = Inr info \<and> info_url info = Absent
        \<and> info_formats info = Val fs \<and> fs \<noteq> [] \<and> raw_url (last fs) = Absent
      \<longrightarrow> fst (stream_video_url stream_info url quality) = 200
         \<and> json_lookup (snd (stream_video_url stream_info url quality)) ''stream_url''
             = Some (JStr []))
   \<and> (stream_info (stream_video_url_selector quality) url = Inr info \<and> info_url info = Absent
        \<and> info_formats info = Val fs \<and> fs \<noteq> [] \<and> raw_url (last fs) = Null
      \<longrightarrow> fst (stream_video_url stream_info url quality) = 200
         \<and> json_lookup (snd (stream_video_url stream_info url quality)) ''stream_url''
             = Some JNull)
   \<and> (stream_info (stream_video_url_selector quality) url = Inr info \<and> info_url info = Absent
        \<and> (info_formats info = Absent \<or> info_formats info = Null \<or> info_formats info = Val [])
      \<longrightarrow> stream_video_url stream_info url quality
           = (400, JObj [(''detail'',
                JStr ''Stream URL extraction failed: No stream URL found'')]))"
proof -
  have a2: "stream_info (stream_video_url_selector quality) url = Inr info \<and> info_url info = Val u
      \<longrightarrow> fst (stream_video_url stream_info url quality) = 200
         \<and> json_lookup (snd (stream_video_url stream_info url quality)) ''stream_url''
             = Some (JStr u)"
    using stream_success[of stream_info quality url info "Some u"]
    by (simp add: stream_url_def)
  have a3: "stream_info (stream_video_url_selector quality) url = Inr info \<and> info_url info = Null
      \<longrightarrow> fst (stream_video_url stream_info url quality) = 200
         \<and> json_lookup (snd (stream_video_url stream_info url quality)) ''stream_url''
             = Some JNull"
    using stream_success[of stream_info quality url info None]
    by (simp add: stream_url_def)
  have b2: "stream_info (stream_video_url_selector quality) url = Inr info \<and> info_url info = Absent
        \<and> info_formats info = Val fs \<and> fs \<noteq> [] \<and> raw_url (last fs) = Val v
      \<longrightarrow> fst (stream_video_url stream_info url quality) = 200
         \<and> json_lookup (snd (stream_video_url stream_info url quality)) ''stream_url''
             = Some (JStr v)"
    using stream_success[of stream_info quality url info "Some v"]
    by (simp add: stream_url_def)
  have b3: "stream_info (stream_video_url_selector quality) url = Inr info \<and> info_url info = Absent
        \<and> info_formats info = Val fs \<and> fs \<noteq> [] \<and> raw_url (last fs) = Absent
      \<longrightarrow> fst (stream_video_url stream_info url quality) = 200
         \<and> json_lookup (snd (stream_video_url stream_info url quality)) ''stream_url''
             = Some (JStr [])"
    using stream_success[of stream_info quality url info "Some []"]
    by (simp add: stream_url_def)
  have b4: "stream_info (stream_video_url_selector quality) url = Inr info \<and> info_url info = Absent
        \<and> info_formats info = Val fs \<and> fs \<noteq> [] \<and> raw_url (last fs) = Null
      \<longrightarrow> fst (stream_video_url stream_info url quality) = 200
         \<and> json_lookup (snd (stream_video_url stream_info url quality)) ''stream_url''
             = Some JNull"
    using stream_success[of stream_info quality url info None]
    by (simp add: stream_url_def)
  have c: "stream_info (stream_video_url_selector quality) url = Inr info \<and> info_url info = Absent
        \<and> (info_formats info = Absent \<or> info_formats info = Null \<or> info_formats info = Val [])
      \<longrightarrow> stream_video_url stream_info url quality
           = (400, JObj [(''detail'',
                JStr ''Stream URL extraction failed: No stream URL found'')])"
    using stream_fails[of stream_info quality url info "''No stream URL found''"]
    by (auto simp: stream_url_def)
  show ?thesis by (intro conjI a2 a3 b2 b3 b4 c)
qed

theorem stream_url_choice_witness:
  "info_url info_with_url = Val ''https://cdn.example/v.mp4''
   \<and> fst (stream_video_url (\<lambda>f u. Inr info_with_url) ''https://youtu.be/XYZ789?x=1''
        ''best'') = 200
   \<and> json_lookup (snd (stream_video_url (\<lambda>f u. Inr info_with_url) ''https://youtu.be/XYZ789?x=1''
        ''best'')) ''stream_url'' = Some (JStr ''https://cdn.example/v.mp4'')
   \<and> info_url info_null_url = Null
   \<and> json_lookup (snd (stream_video_url (\<lambda>f u. Inr info_null_url) ''https://youtu.be/XYZ789?x=1''
        ''best'')) ''stream_url'' = Some JNull
   \<and> info_url info_with_formats = Absent
   \<and> info_formats info_with_formats = Val sample_stream_formats
   \<and> sample_stream_formats \<noteq> []
   \<and> raw_url (last sample_stream_formats) = Val ''https://cdn.example/22.mp4''
   \<and> fst (stream_video_url (\<lambda>f u. Inr info_with_formats) ''https://youtu.be/XYZ789?x=1''
        ''best'') = 200
   \<and> json_lookup (snd (stream_video_url (\<lambda>f u. Inr info_with_formats)
        ''https://youtu.be/XYZ789?x=1'' ''best'')) ''stream_url''
       = Some (JStr ''https://cdn.example/22.mp4'')
   \<and> info_url info_last_without_url = Absent
   \<and> info_formats info_last_without_url = Val sample_formats
   \<and> sample_formats \<noteq> []
   \<and> raw_url (last sample_formats) = Absent
   \<and> json_lookup (snd (stream_video_url (\<lambda>f u. Inr info_last_without_url)
        ''https://youtu.be/XYZ789?x=1'' ''best'')) ''stream_url'' = Some (JStr [])
   \<and> info_url info_without_url = Absent \<and> info_formats info_without_url = Val []
   \<and> stream_video_url (\<lambda>f u. Inr info_without_url) ''https://youtu.be/XYZ789?x=1'' ''best''
       = (400, JObj [(''detail'', JStr ''Stream URL extraction failed: No stream URL found'')])"
proof -
  have h1: "info_url info_with_url = Val ''https://cdn.example/v.mp4''"
    by (simp add: info_with_url_def)
  have h1n: "info_url info_null_url = Null"
    by (simp add: info_null_url_def)
  have h2: "info_url info_with_formats = Absent"
    "info_formats info_with_formats = Val sample_stream_formats"
    "sample_stream_formats \<noteq> []"
    "raw_url (last sample_stream_formats) = Val ''https://cdn.example/22.mp4''"
    by (simp_all add: info_with_formats_def sample_stream_formats_def)
  have h2a: "info_url info_last_without_url = Absent"
    "info_formats info_last_without_url = Val sample_formats"
    "sample_formats \<noteq> []"
    "raw_url (last sample_formats) = Absent"
    by (simp_all add: info_last_without_url_def sample_formats_def)
  have h3: "info_url info_without_url = Absent" "info_formats info_without_url = Val []"
    by (simp_all add: info_without_url_def)
  note t1 = stream_url_choice[where stream_info = "\<lambda>f u. Inr info_with_url"
      and info = info_with_url and u = "''https://cdn.example/v.mp4''"
      and url = "''https://youtu.be/XYZ789?x=1''" and quality = "''best''"]
  have w1: "fst (stream_video_url (\<lambda>f u. Inr info_with_url) ''https://youtu.be/XYZ789?x=1''
        ''best'') = 200"
    and w1b: "json_lookup (snd (stream_video_url (\<lambda>f u. Inr info_with_url)
        ''https://youtu.be/XYZ789?x=1'' ''best'')) ''stream_url''
       = Some (JStr ''https://cdn.example/v.mp4'')"
    using t1 h1 by blast+
  note t1n = stream_url_choice[where stream_info = "\<lambda>f u. Inr info_null_url"
      and info = info_null_url
      and url = "''https://youtu.be/XYZ789?x=1''" and quality = "''best''"]
  have w1n: "json_lookup (snd (stream_video_url (\<lambda>f u. Inr info_null_url)
        ''https://youtu.be/XYZ789?x=1'' ''best'')) ''stream_url'' = Some JNull"
    using t1n h1n by blast
  note t2 = stream_url_choice[where stream_info = "\<lambda>f u. Inr info_with_formats"
      and info = info_with_formats and fs = sample_stream_formats
      and v = "''https://cdn.example/22.mp4''"
      and url = "''https://youtu.be/XYZ789?x=1''" and quality = "''best''"]
  have w2: "fst (stream_video_url (\<lambda>f u. Inr info_with_formats) ''https://youtu.be/XYZ789?x=1''
        ''best'') = 200"
    and w3: "json_lookup (snd (stream_video_url (\<lambda>f u. Inr info_with_formats)
        ''https://youtu.be/XYZ789?x=1'' ''best'')) ''stream_url''
       = Some (JStr ''https://cdn.example/22.mp4'')"
    using t2 h2 by blast+
  note t2a = stream_url_choice[where stream_info = "\<lambda>f u. Inr info_last_without_url"
      and info = info_last_without_url and fs = sample_formats
      and url = "''https://youtu.be/XYZ789?x=1''" and quality = "''best''"]
  have w3a: "json_lookup (snd (stream_video_url (\<lambda>f u. Inr info_last_without_url)
        ''https://youtu.be/XYZ789?x=1'' ''best'')) ''stream_url'' = Some (JStr [])"
    using t2a h2a by blast
  note t3 = stream_url_choice[where stream_info = "\<lambda>f u. Inr info_without_url"
      and info = info_without_url
      and url = "''https://youtu.be/XYZ789?x=1''" and quality = "''best''"]
  have w4: "stream_video_url (\<lambda>f u. Inr info_without_url) ''https://youtu.be/XYZ789?x=1'' ''best''
       = (400, JObj [(''detail'', JStr ''Stream URL extraction failed: No stream URL found'')])"
    using t3 h3 by blast
  show ?thesis by (intro conjI h1 w1 w1b h1n w1n h2 w2 w3 h2a w3a h3 w4)
qed

theorem stream_url_choice_counterexample:
  "info_url info_null_url = Null
   \<and> fst (stream_video_url (\<lambda>f u. Inr info_null_url) ''https://youtu.be/XYZ789?x=1''
        ''best'') = 200
   \<and> json_lookup (snd (stream_video_url (\<lambda>f u. Inr info_null_url) ''https://youtu.be/XYZ789?x=1''
        ''best'')) ''stream_url'' = Some JNull
   \<and> info_url info_last_without_url = Absent
   \<and> raw_url (last sample_formats) = Absent
   \<and> fst (stream_video_url (\<lambda>f u. Inr info_last_without_url) ''https://youtu.be/XYZ789?x=1''
        ''best'') = 200
   \<and> json_lookup (snd (stream_video_url (\<lambda>f u. Inr info_last_without_url)
        ''https://youtu.be/XYZ789?x=1'' ''best'')) ''stream_url'' = Some (JStr [])"
  by (simp add: info_null_url_def info_last_without_url_def sample_formats_def
      stream_video_url_def stream_url_def json_lookup_def)

section \<open>Download links of the scrape-only server\<close>

lemmas quote_eval = quote_def utf8_def quote_byte_def quote_safe_def hex_char_def char_of_def bit_0

lemma generate_download_urls_with_id:
  assumes "extract_youtube_id video_url = Some video_id"
  shows "generate_download_urls video_url quality =
     [''https://vkrdownloader.xyz/server/dl.php?vkr='' @ quote video_url @ ''&q='' @ quality,
      ''https://www.y2mate.com/youtube/'' @ video_id,
      ''https://savefrom.net/#url='' @ quote video_url,
      ''https://vkrdownloader.xyz/server/force.php?vkr='' @ quote video_url @ ''&q='' @ quality]"
  using assms extract_youtube_id_nonempty[OF assms]
  by (simp add: generate_download_urls_def Let_def)

lemma generate_download_urls_nonempty: "generate_download_urls video_url quality \<noteq> []"
  by (simp add: generate_download_urls_def Let_def)

text \<open>
  Claim C10. In simple_backend.py, when the URL of a \<open>/download\<close> request yields a video
  identifier, \<open>generate_download_urls\<close> returns exactly four links (the two vkrdownloader
  links are appended whatever the URL, so the list is never empty), and the response has
  \<open>success\<close> true, as \<open>download_url\<close> the first vkrdownloader link, never \<open>null\<close>, and the
  four links as \<open>alternative_urls\<close>.
\<close>

theorem download_urls_four:
  "(extract_youtube_id video_url = Some video_id \<longrightarrow>
      generate_download_urls video_url quality =
        [''https://vkrdownloader.xyz/server/dl.php?vkr='' @ quote video_url @ ''&q='' @ quality,
         ''https://www.y2mate.com/youtube/'' @ video_id,
         ''https://savefrom.net/#url='' @ quote video_url,
         ''https://vkrdownloader.xyz/server/force.php?vkr='' @ quote video_url @ ''&q=''
           @ quality]
      \<and> length (generate_download_urls video_url quality) = 4)
   \<and> (query_params ''url'' = Some video_url \<and> extract_youtube_id video_url = Some video_id
        \<and> quality = (case query_params ''quality'' of None \<Rightarrow> ''720'' | Some q \<Rightarrow> q) \<longrightarrow>
      handle_download query_params = JObj
        [(''success'', JBool True),
         (''download_url'',
            JStr (''https://vkrdownloader.xyz/server/dl.php?vkr='' @ quote video_url @ ''&q=''
              @ quality)),
         (''alternative_urls'', JList (map JStr (generate_download_urls video_url quality))),
         (''quality'', JStr quality)])
   \<and> generate_download_urls video_url quality \<noteq> []"
proof -
  have c1: "extract_youtube_id video_url = Some video_id \<longrightarrow>
      generate_download_urls video_url quality =
        [''https://vkrdownloader.xyz/server/dl.php?vkr='' @ quote video_url @ ''&q='' @ quality,
         ''https://www.y2mate.com/youtube/'' @ video_id,
         ''https://savefrom.net/#url='' @ quote video_url,
         ''https://vkrdownloader.xyz/server/force.php?vkr='' @ quote video_url @ ''&q=''
           @ quality]
      \<and> length (generate_download_urls video_url quality) = 4"
    using generate_download_urls_with_id[of video_url video_id quality] by simp
  have c2: "query_params ''url'' = Some video_url \<and> extract_youtube_id video_url = Some video_id
        \<and> quality = (case query_params ''quality'' of None \<Rightarrow> ''720'' | Some q \<Rightarrow> q) \<longrightarrow>
      handle_download query_params = JObj
        [(''success'', JBool True),
         (''download_url'',
            JStr (''https://vkrdownloader.xyz/server/dl.php?vkr='' @ quote video_url @ ''&q=''
              @ quality)),
         (''alternative_urls'', JList (map JStr (generate_download_urls video_url quality))),
         (''quality'', JStr quality)]"
  proof (intro impI, elim conjE)
    assume u: "query_params ''url'' = Some video_url"
      and i: "extract_youtube_id video_url = Some video_id"
      and q: "quality = (case query_params ''quality'' of None \<Rightarrow> ''720'' | Some q \<Rightarrow> q)"
    note g = generate_download_urls_with_id[OF i, of quality]
    show "handle_download query_params = JObj
        [(''success'', JBool True),
         (''download_url'',
            JStr (''https://vkrdownloader.xyz/server/dl.php?vkr='' @ quote video_url @ ''&q=''
              @ quality)),
         (''alternative_urls'', JList (map JStr (generate_download_urls video_url quality))),
         (''quality'', JStr quality)]"
      unfolding handle_download_def
      using extract_youtube_id_nonempty[OF i]
      by (simp add: u i q[symmetric] Let_def g)
  qed
  show ?thesis by (intro conjI c1 c2 generate_download_urls_nonempty)
qed

theorem download_urls_four_witness:
  "extract_youtube_id ''https://youtu.be/XYZ789?x=1'' = Some ''XYZ789''
   \<and> sample_query ''url'' = Some ''https://youtu.be/XYZ789?x=1''
   \<and> generate_download_urls ''https://youtu.be/XYZ789?x=1'' ''720'' =
       [''https://vkrdownloader.xyz/server/dl.php?vkr=https%3A//youtu.be/XYZ789%3Fx%3D1&q=720'',
        ''https://www.y2mate.com/youtube/XYZ789'',
        ''https://savefrom.net/#url=https%3A//youtu.be/XYZ789%3Fx%3D1'',
        ''https://vkrdownloader.xyz/server/force.php?vkr=https%3A//youtu.be/XYZ789%3Fx%3D1&q=720'']
   \<and> length (generate_download_urls ''https://youtu.be/XYZ789?x=1'' ''720'') = 4
   \<and> handle_download sample_query = JObj
        [(''success'', JBool True),
         (''download_url'', JStr
            ''https://vkrdownloader.xyz/server/dl.php?vkr=https%3A//youtu.be/XYZ789%3Fx%3D1&q=720''),
         (''alternative_urls'', JList (map JStr
            [''https://vkrdownloader.xyz/server/dl.php?vkr=https%3A//youtu.be/XYZ789%3Fx%3D1&q=720'',
             ''https://www.y2mate.com/youtube/XYZ789'',
             ''https://savefrom.net/#url=https%3A//youtu.be/XYZ789%3Fx%3D1'',
             ''https://vkrdownloader.xyz/server/force.php?vkr=https%3A//youtu.be/XYZ789%3Fx%3D1&q=720''])),
         (''quality'', JStr ''720'')]"
proof -
  have q: "quote ''https://youtu.be/XYZ789?x=1'' = ''https%3A//youtu.be/XYZ789%3Fx%3D1''"
    by (simp add: quote_eval)
  have h1: "sample_query ''url'' = Some ''https://youtu.be/XYZ789?x=1''"
    and h2: "''720'' = (case sample_query ''quality'' of None \<Rightarrow> ''720'' | Some q \<Rightarrow> q)"
    by (simp_all add: sample_query_def)
  note t = download_urls_four[where video_url = "''https://youtu.be/XYZ789?x=1''"
      and video_id = "''XYZ789''" and quality = "''720''" and query_params = sample_query]
  have w1: "generate_download_urls ''https://youtu.be/XYZ789?x=1'' ''720'' =
       [''https://vkrdownloader.xyz/server/dl.php?vkr=https%3A//youtu.be/XYZ789%3Fx%3D1&q=720'',
        ''https://www.y2mate.com/youtube/XYZ789'',
        ''https://savefrom.net/#url=https%3A//youtu.be/XYZ789%3Fx%3D1'',
        ''https://vkrdownloader.xyz/server/force.php?vkr=https%3A//youtu.be/XYZ789%3Fx%3D1&q=720'']"
    using t youtube_id_short_example by (simp add: q)
  have w2: "length (generate_download_urls ''https://youtu.be/XYZ789?x=1'' ''720'') = 4"
    using t youtube_id_short_example by blast
  have "handle_download sample_query = JObj
        [(''success'', JBool True),
         (''download_url'',
            JStr (''https://vkrdownloader.xyz/server/dl.php?vkr=''
              @ quote ''https://youtu.be/XYZ789?x=1'' @ ''&q='' @ ''720'')),
         (''alternative_urls'',
            JList (map JStr (generate_download_urls ''https://youtu.be/XYZ789?x=1'' ''720''))),
         (''quality'', JStr ''720'')]"
    using t youtube_id_short_example h1 h2 by blast
  then have w3: "handle_download sample_query = JObj
        [(''success'', JBool True),
         (''download_url'', JStr
            ''https://vkrdownloader.xyz/server/dl.php?vkr=https%3A//youtu.be/XYZ789%3Fx%3D1&q=720''),
         (''alternative_urls'', JList (map JStr
            [''https://vkrdownloader.xyz/server/dl.php?vkr=https%3A//youtu.be/XYZ789%3Fx%3D1&q=720'',
             ''https://www.y2mate.com/youtube/XYZ789'',
             ''https://savefrom.net/#url=https%3A//youtu.be/XYZ789%3Fx%3D1'',
             ''https://vkrdownloader.xyz/server/force.php?vkr=https%3A//youtu.be/XYZ789%3Fx%3D1&q=720''])),
         (''quality'', JStr ''720'')]"
    by (simp add: w1 q)
  show ?thesis by (intro conjI youtube_id_short_example h1 w1 w2 w3)
qed

end
